theory Spec2Isabelle
  imports Main "HOL-Library.Sublist"
begin

section \<open>JavaScript values used by the providers\<close>

text \<open>
  The two providers (\<^verbatim>\<open>qwen-code.ts\<close>, \<^verbatim>\<open>gemini-cli.ts\<close>) read their
  credential records from JSON and from an untyped token response, so a field of a
  record may be \<^verbatim>\<open>undefined\<close>. An optional value is \<open>None\<close> when the field is
  absent. Timestamps are integers (milliseconds since the epoch); a number that is
  absent or not a number (\<^verbatim>\<open>undefined * 1000\<close>) is \<open>None\<close>.
\<close>

definition truthy :: "string option \<Rightarrow> bool" where
  \<comment> \<open>JavaScript truthiness of a string-or-undefined: the empty string is falsy.\<close>
  "truthy s = (case s of None \<Rightarrow> False | Some t \<Rightarrow> t \<noteq> [])"

definition truthy_num :: "int option \<Rightarrow> bool" where
  \<comment> \<open>JavaScript truthiness of a number-or-undefined: \<open>0\<close> (and NaN, here \<open>None\<close>) is falsy.\<close>
  "truthy_num n = (case n of None \<Rightarrow> False | Some k \<Rightarrow> k \<noteq> 0)"

definition or_else :: "string option \<Rightarrow> string option \<Rightarrow> string option" where
  \<comment> \<open>The operator \<^verbatim>\<open>a || b\<close> on strings.\<close>
  "or_else a b = (if truthy a then a else b)"

section \<open>Credential record\<close>

record credentials =
  access_token :: "string option"
  refresh_token :: "string option"
  token_type :: "string option"
  expiry_date :: "int option"
  resource_url :: "string option"

definition TOKEN_REFRESH_BUFFER :: int where
  "TOKEN_REFRESH_BUFFER = 30 * 1000"

definition isTokenValid :: "credentials \<Rightarrow> int \<Rightarrow> bool" where
  \<comment> \<open>The second argument is the value of \<^verbatim>\<open>Date.now()\<close>.\<close>
  "isTokenValid creds date_now =
     (if \<not> truthy_num (expiry_date creds) then False
      else date_now < the (expiry_date creds) - TOKEN_REFRESH_BUFFER)"


section \<open>Errors, events and the world outside the provider\<close>

text \<open>
  A thrown value is an \<^verbatim>\<open>Error\<close> with its message; an error of the wrapped API
  also carries the HTTP status that \<^verbatim>\<open>callApiWithRetry\<close> inspects.
\<close>

datatype error = Error (err_message: string) (err_status: "int option")

datatype event =
    ReadFile string
  | Mkdir string
  | WriteFile string string
  | ConsoleError string
  | TokenRequest "(string \<times> string option) list"
  | ConfigRequest
  | ModelsRequest string "string option"
  | ApiCall

fun is_TokenRequest :: "event \<Rightarrow> bool" where
  "is_TokenRequest (TokenRequest _) = True"
| "is_TokenRequest _ = False"

fun is_ModelsRequest :: "event \<Rightarrow> bool" where
  "is_ModelsRequest (ModelsRequest _ _) = True"
| "is_ModelsRequest _ = False"

fun is_ReadFile :: "event \<Rightarrow> bool" where
  "is_ReadFile (ReadFile _) = True"
| "is_ReadFile _ = False"

definition occurrences :: "(event \<Rightarrow> bool) \<Rightarrow> event list \<Rightarrow> nat" where
  "occurrences P tr = length (filter P tr)"

record 'b response =
  ok :: bool
  status :: nat
  statusText :: string
  body_text :: string
  json :: "string + 'b"  \<comment> \<open>\<^verbatim>\<open>response.json()\<close>: \<open>Inl\<close> when the body does not parse\<close>

record token_data =
  td_access_token :: "string option"
  td_token_type :: "string option"
  td_refresh_token :: "string option"
  td_expires_in :: "int option"
  td_error :: "string option"
  td_error_description :: "string option"

record OauthConfig =
  oauthClientId :: "string option"
  oauthClientSecret :: "string option"

record model_entry =
  m_id :: "string option"
  m_owned_by :: "string option"
  m_context_length :: "int option"
  m_max_completion_tokens :: "int option"

datatype models_item =
    Entry model_entry
  | Unusable  \<comment> \<open>an item on which the filter or the map raises a TypeError (\<^verbatim>\<open>null\<close>, an id that is no string)\<close>

text \<open>
  The parsed credential file: \<^verbatim>\<open>JSON.parse\<close> gives \<^verbatim>\<open>null\<close> (any property access
  then raises a TypeError) or a value whose fields are read; a field that the value
  does not have is \<open>None\<close>.
\<close>

datatype parsed = JsonNull | JsonValue credentials

text \<open>
  The world holds everything the provider reads from or writes to outside its own
  fields: the clock, the file system, the platform's path and JSON functions, and the
  replies of the remote endpoints. The reply to the \<open>k\<close>-th request to an endpoint is
  given by a function of \<open>k\<close>, so every behaviour of the network is a world. Each
  effect is appended to \<open>trace\<close> and takes \<open>elapse\<close> milliseconds.
\<close>

record 'r world =
  now :: int
  elapse :: "nat \<Rightarrow> int"
  trace :: "event list"
  window_defined :: bool
  process_env :: "(string \<rightharpoonup> string) option"
  homedir :: string
  path_join :: "string list \<Rightarrow> string"
  path_resolve :: "string \<Rightarrow> string"
  path_dirname :: "string \<Rightarrow> string"
  files :: "string \<Rightarrow> string + string"
  mkdir_error :: "string \<Rightarrow> string option"
  write_error :: "string \<Rightarrow> string option"
  JSON_parse :: "string \<Rightarrow> string + parsed"
  JSON_stringify :: "credentials \<Rightarrow> string"
  token_endpoint :: "nat \<Rightarrow> string + token_data response"
  config_endpoint :: "nat \<Rightarrow> string + OauthConfig option response"
  models_endpoint :: "nat \<Rightarrow> string + models_item list option response"
  api :: "nat \<Rightarrow> error + 'r"

definition emit :: "event \<Rightarrow> 'r world \<Rightarrow> 'r world" where
  "emit ev w = w\<lparr>trace := trace w @ [ev], now := now w + elapse w (length (trace w))\<rparr>"

fun show_nat :: "nat \<Rightarrow> string" where
  "show_nat n =
     (if n < 10 then [char_of (48 + n)]
      else show_nat (n div 10) @ [char_of (48 + n mod 10)])"

declare show_nat.simps [simp del]

section \<open>Provider session state\<close>

datatype provider_kind = QwenCode | GeminiCli

record client =
  baseURL :: "string option"
  apiKey :: "string option"

text \<open>
  A promise is identified by a number and stands for the outcome it settles with.
  A caller that runs alone reads the outcome when it awaits; the event loop further
  down makes a caller wait until the promise has settled.
\<close>

datatype promise = Promise (promise_id: nat) (outcome: "error + credentials")

record provider =
  kind :: provider_kind
  p_credentials :: "credentials option"
  p_refreshPromise :: "promise option"
  p_oauthPath :: "string option"
  p_initialized :: bool
  p_client :: "client option"
  p_oauthConfig :: "OauthConfig option"

record IProviderSetting =
  s_baseUrl :: "string option"

definition apiTokenKey :: "provider_kind \<Rightarrow> string" where
  "apiTokenKey k = (case k of QwenCode \<Rightarrow> ''QWEN_OAUTH_PATH'' | GeminiCli \<Rightarrow> ''GEMINI_CLI_OAUTH_PATH'')"

definition provider_name :: "provider_kind \<Rightarrow> string" where
  "provider_name k = (case k of QwenCode \<Rightarrow> ''QwenCode'' | GeminiCli \<Rightarrow> ''GeminiCli'')"

section \<open>Credential store accessor\<close>

definition getCredentialPath :: "provider_kind \<Rightarrow> 'r world \<Rightarrow> string option \<Rightarrow> string" where
  \<comment> \<open>\<^verbatim>\<open>getQwenCredentialPath\<close> and \<^verbatim>\<open>getGeminiCredentialPath\<close>\<close>
  "getCredentialPath k w customPath =
     (if truthy customPath then
        (if prefix ''~/'' (the customPath)
         then path_join w [homedir w, drop 2 (the customPath)]
         else path_resolve w (the customPath))
      else (case k of
              QwenCode \<Rightarrow> path_join w [homedir w, ''.qwen'', ''oauth_creds.json'']
            | GeminiCli \<Rightarrow> path_join w [homedir w, ''.gemini'', ''oauth_creds.json'']))"

definition lookup_env :: "(string \<rightharpoonup> string) option \<Rightarrow> string \<Rightarrow> string option" where
  \<comment> \<open>\<^verbatim>\<open>env?.[key]\<close>\<close>
  "lookup_env env key = (case env of None \<Rightarrow> None | Some m \<Rightarrow> m key)"

definition initializeOAuthPath ::
  "IProviderSetting option \<Rightarrow> (string \<rightharpoonup> string) option \<Rightarrow> provider \<Rightarrow> 'r world \<Rightarrow> provider" where
  "initializeOAuthPath settings serverEnv p w =
     (if p_initialized p then p
      else p\<lparr>p_oauthPath :=
               or_else (case settings of None \<Rightarrow> None | Some s \<Rightarrow> s_baseUrl s)
                 (or_else (lookup_env serverEnv (apiTokenKey (kind p)))
                    (lookup_env (process_env w) (apiTokenKey (kind p)))),
             p_initialized := True\<rparr>)"

definition load_prefix :: "provider_kind \<Rightarrow> string" where
  "load_prefix k = (case k of
      QwenCode \<Rightarrow> ''Failed to load Qwen OAuth credentials: ''
    | GeminiCli \<Rightarrow> ''Failed to load Gemini CLI OAuth credentials: '')"

definition loadCredentials_try :: "provider \<Rightarrow> 'r world \<Rightarrow> (error + credentials) \<times> 'r world" where
  \<comment> \<open>the \<^verbatim>\<open>try\<close> block of \<^verbatim>\<open>loadCredentials\<close>\<close>
  "loadCredentials_try p w =
     (let credPath = getCredentialPath (kind p) w (p_oauthPath p);
          w1 = emit (ReadFile credPath) w
      in case files w credPath of
           Inl msg \<Rightarrow> (Inl (Error msg None), w1)
         | Inr credsStr \<Rightarrow>
             (case JSON_parse w credsStr of
                Inl msg \<Rightarrow> (Inl (Error msg None), w1)
              | Inr JsonNull \<Rightarrow>
                  (Inl (Error ''Cannot read properties of null (reading access_token)'' None), w1)
              | Inr (JsonValue creds) \<Rightarrow>
                  if \<not> truthy (access_token creds) \<or> \<not> truthy (refresh_token creds)
                  then (Inl (Error ''Invalid credentials format: missing access_token or refresh_token'' None), w1)
                  else (Inr creds, w1)))"

definition loadCredentials :: "provider \<Rightarrow> 'r world \<Rightarrow> (error + credentials) \<times> 'r world" where
  "loadCredentials p w =
     (case loadCredentials_try p w of
        (Inr creds, w1) \<Rightarrow> (Inr creds, w1)
      | (Inl e, w1) \<Rightarrow>
          (Inl (Error (load_prefix (kind p) @ err_message e) None),
           emit (ConsoleError (err_message e)) w1))"

definition saveCredentials_try :: "provider \<Rightarrow> credentials \<Rightarrow> 'r world \<Rightarrow> (error + unit) \<times> 'r world" where
  \<comment> \<open>the \<^verbatim>\<open>try\<close> block of \<^verbatim>\<open>saveCredentials\<close>: \<^verbatim>\<open>mkdir\<close>, then \<^verbatim>\<open>writeFile\<close>\<close>
  "saveCredentials_try p creds w =
     (let credPath = getCredentialPath (kind p) w (p_oauthPath p);
          dir = path_dirname w credPath;
          w1 = emit (Mkdir dir) w
      in case mkdir_error w dir of
           Some msg \<Rightarrow> (Inl (Error msg None), w1)
         | None \<Rightarrow>
             (let w2 = emit (WriteFile credPath (JSON_stringify w creds)) w1
              in case write_error w credPath of
                   Some msg \<Rightarrow> (Inl (Error msg None), w2)
                 | None \<Rightarrow>
                     (Inr (), w2\<lparr>files := (files w2)(credPath := Inr (JSON_stringify w creds))\<rparr>)))"

definition saveCredentials :: "provider \<Rightarrow> credentials \<Rightarrow> 'r world \<Rightarrow> (error + unit) \<times> 'r world" where
  \<comment> \<open>the \<^verbatim>\<open>catch\<close> block logs and does not rethrow\<close>
  "saveCredentials p creds w =
     (case saveCredentials_try p creds w of
        (Inr u, w1) \<Rightarrow> (Inr u, w1)
      | (Inl e, w1) \<Rightarrow> (Inr (), emit (ConsoleError (err_message e)) w1))"

section \<open>Refresh coordinator\<close>

definition or_default :: "string option \<Rightarrow> string \<Rightarrow> string" where
  \<comment> \<open>\<^verbatim>\<open>a || 'literal'\<close>\<close>
  "or_default a d = (case a of None \<Rightarrow> d | Some t \<Rightarrow> if t = [] then d else t)"

definition QWEN_OAUTH_CLIENT_ID :: string where
  "QWEN_OAUTH_CLIENT_ID = ''f0304373b74a44d2b584a3fb70ca9e56''"

definition fetchOAuthConfig_try :: "provider \<Rightarrow> 'r world \<Rightarrow> (error + OauthConfig) \<times> provider \<times> 'r world" where
  \<comment> \<open>the \<^verbatim>\<open>try\<close> block of \<^verbatim>\<open>fetchOAuthConfig\<close> (gemini-cli.ts); the reply's body is read as its \<^verbatim>\<open>geminiCli\<close> member\<close>
  "fetchOAuthConfig_try p w =
     (let w1 = emit ConfigRequest w
      in case config_endpoint w (occurrences (\<lambda>e. e = ConfigRequest) (trace w)) of
           Inl msg \<Rightarrow> (Inl (Error msg None), p, w1)
         | Inr resp \<Rightarrow>
             if \<not> ok resp
             then (Inl (Error (''Failed to fetch config: '' @ show_nat (status resp) @ '' '' @ statusText resp) None), p, w1)
             else (case json resp of
                     Inl msg \<Rightarrow> (Inl (Error msg None), p, w1)
                   | Inr cfg \<Rightarrow>
                       (let p1 = p\<lparr>p_oauthConfig := cfg\<rparr>
                        in case cfg of
                             None \<Rightarrow> (Inl (Error ''OAuth client credentials not found in config'' None), p1, w1)
                           | Some c \<Rightarrow>
                               if \<not> truthy (oauthClientId c) \<or> \<not> truthy (oauthClientSecret c)
                               then (Inl (Error ''OAuth client credentials not found in config'' None), p1, w1)
                               else (Inr c, p1, w1))))"

definition fetchOAuthConfig :: "provider \<Rightarrow> 'r world \<Rightarrow> (error + OauthConfig) \<times> provider \<times> 'r world" where
  "fetchOAuthConfig p w =
     (case p_oauthConfig p of
        Some c \<Rightarrow> (Inr c, p, w)
      | None \<Rightarrow>
          (case fetchOAuthConfig_try p w of
             (Inr c, p1, w1) \<Rightarrow> (Inr c, p1, w1)
           | (Inl e, p1, w1) \<Rightarrow>
               (Inl (Error (''Failed to load OAuth configuration: '' @ err_message e) None), p1,
                emit (ConsoleError (err_message e)) w1)))"

definition tokenResponse :: "'r world \<Rightarrow> token_data option" where
  \<comment> \<open>the body of the reply to the next token request, when that reply is a success:
      the \<^verbatim>\<open>fetch\<close> resolves, \<^verbatim>\<open>response.ok\<close> holds, the body parses and has no \<^verbatim>\<open>error\<close> member\<close>
  "tokenResponse w =
     (case token_endpoint w (occurrences is_TokenRequest (trace w)) of
        Inl msg \<Rightarrow> None
      | Inr resp \<Rightarrow>
          if \<not> ok resp then None
          else (case json resp of
                  Inl msg \<Rightarrow> None
                | Inr tokenData \<Rightarrow> if truthy (td_error tokenData) then None else Some tokenData))"

definition newCredentials :: "credentials \<Rightarrow> token_data \<Rightarrow> int \<Rightarrow> credentials" where
  \<comment> \<open>the record built from the prior record, the token response and \<^verbatim>\<open>Date.now()\<close>\<close>
  "newCredentials creds tokenData date_now =
     creds\<lparr>access_token := td_access_token tokenData,
           token_type := Some (or_default (td_token_type tokenData) ''Bearer''),
           refresh_token := or_else (td_refresh_token tokenData) (refresh_token creds),
           expiry_date := map_option (\<lambda>s. date_now + s * 1000) (td_expires_in tokenData)\<rparr>"

definition exchangeToken ::
  "(string \<times> string option) list \<Rightarrow> provider \<Rightarrow> credentials \<Rightarrow> 'r world \<Rightarrow> (error + credentials) \<times> 'r world" where
  \<comment> \<open>in \<^verbatim>\<open>performTokenRefresh\<close>: from the \<^verbatim>\<open>fetch\<close> of the token endpoint to \<^verbatim>\<open>return newCredentials\<close>\<close>
  "exchangeToken params p creds w =
     (let w1 = emit (TokenRequest params) w
      in case token_endpoint w (occurrences is_TokenRequest (trace w)) of
           Inl msg \<Rightarrow> (Inl (Error msg None), w1)
         | Inr resp \<Rightarrow>
             if \<not> ok resp
             then (Inl (Error (''Token refresh failed: '' @ show_nat (status resp) @ '' '' @ statusText resp
                               @ ''. Response: '' @ body_text resp) None), w1)
             else (case json resp of
                     Inl msg \<Rightarrow> (Inl (Error msg None), w1)
                   | Inr tokenData \<Rightarrow>
                       if truthy (td_error tokenData)
                       then (Inl (Error (''Token refresh error: '' @ or_default (td_error tokenData) []
                                         @ '' - '' @ or_default (td_error_description tokenData) ''Unknown error'') None), w1)
                       else (let new = newCredentials creds tokenData (now w1)
                             in case saveCredentials p new w1 of
                                  (Inl e, w2) \<Rightarrow> (Inl e, w2)
                                | (Inr u, w2) \<Rightarrow> (Inr new, w2))))"

definition performTokenRefresh_try ::
  "provider \<Rightarrow> credentials \<Rightarrow> 'r world \<Rightarrow> (error + credentials) \<times> provider \<times> 'r world" where
  \<comment> \<open>the \<^verbatim>\<open>try\<close> block of \<^verbatim>\<open>performTokenRefresh\<close>, per provider\<close>
  "performTokenRefresh_try p creds w =
     (case kind p of
        QwenCode \<Rightarrow>
          (case exchangeToken
                  [(''grant_type'', Some ''refresh_token''),
                   (''refresh_token'', refresh_token creds),
                   (''client_id'', Some QWEN_OAUTH_CLIENT_ID)] p creds w of
             (r, w1) \<Rightarrow> (r, p, w1))
      | GeminiCli \<Rightarrow>
          (case fetchOAuthConfig p w of
             (Inl e, p1, w1) \<Rightarrow> (Inl e, p1, w1)
           | (Inr oauthConfig, p1, w1) \<Rightarrow>
               (case exchangeToken
                       [(''grant_type'', Some ''refresh_token''),
                        (''refresh_token'', refresh_token creds),
                        (''client_id'', oauthClientId oauthConfig),
                        (''client_secret'', oauthClientSecret oauthConfig)] p1 creds w1 of
                  (r, w2) \<Rightarrow> (r, p1, w2))))"

definition performTokenRefresh ::
  "provider \<Rightarrow> credentials \<Rightarrow> 'r world \<Rightarrow> (error + credentials) \<times> provider \<times> 'r world" where
  "performTokenRefresh p creds w =
     (if \<not> truthy (refresh_token creds)
      then (Inl (Error ''No refresh token available'' None), p, w)
      else (case performTokenRefresh_try p creds w of
              (Inr new, p1, w1) \<Rightarrow> (Inr new, p1, w1)
            | (Inl e, p1, w1) \<Rightarrow>
                (Inl (Error (''Failed to refresh access token: '' @ err_message e) None), p1,
                 emit (ConsoleError (err_message e)) w1)))"

definition tokenRequestWorld :: "provider \<Rightarrow> 'r world \<Rightarrow> 'r world" where
  \<comment> \<open>the world in which \<^verbatim>\<open>performTokenRefresh\<close> issues its token request: gemini-cli.ts has
      awaited \<^verbatim>\<open>fetchOAuthConfig\<close> by then\<close>
  "tokenRequestWorld p w = (case kind p of QwenCode \<Rightarrow> w | GeminiCli \<Rightarrow> snd (snd (fetchOAuthConfig p w)))"

text \<open>
  \<^verbatim>\<open>refreshAccessToken\<close> as one caller runs it with no other task in between: a
  non-null slot holds a promise, and awaiting it gives its outcome with no further
  effect; with a null slot the call starts \<^verbatim>\<open>performTokenRefresh\<close>, holds its promise
  in the slot while it awaits, and \<^verbatim>\<open>finally\<close> sets the slot to null.
\<close>

definition refreshAccessToken ::
  "provider \<Rightarrow> credentials \<Rightarrow> 'r world \<Rightarrow> (error + credentials) \<times> provider \<times> 'r world" where
  "refreshAccessToken p creds w =
     (case p_refreshPromise p of
        Some pr \<Rightarrow> (outcome pr, p, w)
      | None \<Rightarrow>
          (case performTokenRefresh p creds w of
             (r, p1, w1) \<Rightarrow> (r, p1\<lparr>p_refreshPromise := None\<rparr>, w1)))"

section \<open>Authentication orchestrator\<close>

definition refreshIfExpired ::
  "credentials \<Rightarrow> provider \<Rightarrow> 'r world \<Rightarrow> (error + credentials) \<times> provider \<times> 'r world" where
  \<comment> \<open>\<^verbatim>\<open>if (!this.isTokenValid(this._credentials)) this._credentials = await this.refreshAccessToken(this._credentials)\<close>\<close>
  "refreshIfExpired creds p w =
     (if \<not> isTokenValid creds (now w) then
        (case refreshAccessToken p creds w of
           (Inl e, p1, w1) \<Rightarrow> (Inl e, p1, w1)
         | (Inr new, p1, w1) \<Rightarrow> (Inr new, p1\<lparr>p_credentials := Some new\<rparr>, w1))
      else (Inr creds, p, w))"

definition loadAndRefresh ::
  "IProviderSetting option \<Rightarrow> (string \<rightharpoonup> string) option \<Rightarrow> provider \<Rightarrow> 'r world
     \<Rightarrow> (error + credentials) \<times> provider \<times> 'r world" where
  \<comment> \<open>the first three steps of \<^verbatim>\<open>ensureClient\<close> (qwen-code.ts) and of \<^verbatim>\<open>ensureAuthenticated\<close>
      (gemini-cli.ts), which are the same text; the result is \<^verbatim>\<open>this._credentials\<close>\<close>
  "loadAndRefresh settings serverEnv p w =
     (let p1 = initializeOAuthPath settings serverEnv p w
      in case p_credentials p1 of
           Some creds \<Rightarrow> refreshIfExpired creds p1 w
         | None \<Rightarrow>
             (case loadCredentials p1 w of
                (Inl e, w1) \<Rightarrow> (Inl e, p1, w1)
              | (Inr creds, w1) \<Rightarrow> refreshIfExpired creds (p1\<lparr>p_credentials := Some creds\<rparr>) w1))"

definition getBaseUrl :: "credentials \<Rightarrow> string" where
  "getBaseUrl creds =
     (let baseUrl = or_default (resource_url creds) ''https://dashscope.aliyuncs.com/compatible-mode/v1'';
          baseUrl = (if \<not> prefix ''http://'' baseUrl \<and> \<not> prefix ''https://'' baseUrl
                     then ''https://'' @ baseUrl else baseUrl)
      in if suffix ''/v1'' baseUrl then baseUrl else baseUrl @ ''/v1'')"

definition ensureClient ::
  "IProviderSetting option \<Rightarrow> (string \<rightharpoonup> string) option \<Rightarrow> provider \<Rightarrow> 'r world
     \<Rightarrow> (error + client) \<times> provider \<times> 'r world" where
  \<comment> \<open>qwen-code.ts\<close>
  "ensureClient settings serverEnv p w =
     (case loadAndRefresh settings serverEnv p w of
        (Inl e, p1, w1) \<Rightarrow> (Inl e, p1, w1)
      | (Inr creds, p1, w1) \<Rightarrow>
          (let c = (case p_client p1 of
                      None \<Rightarrow> \<lparr>baseURL = Some (getBaseUrl creds), apiKey = access_token creds\<rparr>
                    | Some old \<Rightarrow> old\<lparr>apiKey := access_token creds, baseURL := Some (getBaseUrl creds)\<rparr>)
           in (Inr c, p1\<lparr>p_client := Some c\<rparr>, w1)))"

definition getValidAccessToken ::
  "IProviderSetting option \<Rightarrow> (string \<rightharpoonup> string) option \<Rightarrow> provider \<Rightarrow> 'r world
     \<Rightarrow> (error + string option) \<times> provider \<times> 'r world" where
  \<comment> \<open>qwen-code.ts\<close>
  "getValidAccessToken settings serverEnv p w =
     (case ensureClient settings serverEnv p w of
        (Inl e, p1, w1) \<Rightarrow> (Inl e, p1, w1)
      | (Inr c, p1, w1) \<Rightarrow>
          (case p_credentials p1 of
             None \<Rightarrow> (Inl (Error ''Cannot read properties of null (reading access_token)'' None), p1, w1)
           | Some creds \<Rightarrow> (Inr (access_token creds), p1, w1)))"

definition ensureAuthenticated ::
  "IProviderSetting option \<Rightarrow> (string \<rightharpoonup> string) option \<Rightarrow> provider \<Rightarrow> 'r world
     \<Rightarrow> (error + string option) \<times> provider \<times> 'r world" where
  \<comment> \<open>gemini-cli.ts\<close>
  "ensureAuthenticated settings serverEnv p w =
     (case loadAndRefresh settings serverEnv p w of
        (Inl e, p1, w1) \<Rightarrow> (Inl e, p1, w1)
      | (Inr creds, p1, w1) \<Rightarrow> (Inr (access_token creds), p1, w1))"

section \<open>Authenticated call wrapper\<close>

definition callApiWithRetry ::
  "('r world \<Rightarrow> (error + 'r) \<times> 'r world) \<Rightarrow> provider \<Rightarrow> 'r world \<Rightarrow> (error + 'r) \<times> provider \<times> 'r world" where
  "callApiWithRetry apiCall p w =
     (case apiCall w of
        (Inr result, w1) \<Rightarrow> (Inr result, p, w1)
      | (Inl e, w1) \<Rightarrow>
          (let w2 = emit (ConsoleError (err_message e)) w1
           in if err_status e = Some 401 \<and> p_credentials p \<noteq> None then
                (case refreshAccessToken p (the (p_credentials p)) w2 of
                   (Inl e2, p1, w3) \<Rightarrow> (Inl e2, p1, w3)
                 | (Inr new, p1, w3) \<Rightarrow>
                     (case apiCall w3 of
                        (r, w4) \<Rightarrow> (r, p1\<lparr>p_credentials := Some new\<rparr>, w4)))
              else (Inl e, p, w2)))"

definition invokeApi :: "'r world \<Rightarrow> (error + 'r) \<times> 'r world" where
  \<comment> \<open>an \<^verbatim>\<open>apiCall\<close>: each invocation is recorded, and the world answers the \<open>k\<close>-th one with \<open>api w k\<close>\<close>
  "invokeApi w = (api w (occurrences (\<lambda>e. e = ApiCall) (trace w)), emit ApiCall w)"

section \<open>Dynamic model discovery\<close>

record ModelInfo =
  mi_name :: string
  mi_label :: string
  mi_provider :: string
  maxTokenAllowed :: int
  maxCompletionTokens :: int

definition or_default_num :: "int option \<Rightarrow> int \<Rightarrow> int" where
  \<comment> \<open>\<^verbatim>\<open>n || literal\<close> on numbers\<close>
  "or_default_num n d = (case n of None \<Rightarrow> d | Some k \<Rightarrow> if k = 0 then d else k)"

definition str_includes :: "string \<Rightarrow> string \<Rightarrow> bool" where
  \<comment> \<open>\<^verbatim>\<open>s.includes(t)\<close>\<close>
  "str_includes s t = sublist t s"

definition keepModel :: "model_entry \<Rightarrow> bool" where
  \<comment> \<open>the callback of \<^verbatim>\<open>filter\<close>\<close>
  "keepModel m =
     (truthy (m_id m) \<and>
      (str_includes (or_default (m_id m) []) ''coder'' \<or>
       str_includes (or_default (m_id m) []) ''qwen'' \<or>
       str_includes (or_default (m_id m) []) ''qwq''))"

definition toModelInfo :: "model_entry \<Rightarrow> ModelInfo" where
  \<comment> \<open>the callback of \<^verbatim>\<open>map\<close>\<close>
  "toModelInfo m =
     \<lparr>mi_name = or_default (m_id m) [],
      mi_label = or_default (m_id m) [] @ '' - '' @ or_default (m_owned_by m) ''Qwen'' @ '' (Dynamic)'',
      mi_provider = ''QwenCode'',
      maxTokenAllowed = or_default_num (m_context_length m) 128000,
      maxCompletionTokens = min (or_default_num (m_max_completion_tokens m) 8192) 32000\<rparr>"

fun entries :: "models_item list \<Rightarrow> error + model_entry list" where
  \<comment> \<open>the callbacks raise on the first item they cannot read\<close>
  "entries [] = Inr []"
| "entries (Unusable # xs) = Inl (Error ''TypeError'' None)"
| "entries (Entry m # xs) = (case entries xs of Inl e \<Rightarrow> Inl e | Inr ms \<Rightarrow> Inr (m # ms))"

definition fetchModels ::
  "IProviderSetting option \<Rightarrow> (string \<rightharpoonup> string) option \<Rightarrow> provider \<Rightarrow> 'r world
     \<Rightarrow> (error + ModelInfo list option) \<times> provider \<times> 'r world" where
  \<comment> \<open>the inner \<^verbatim>\<open>try\<close> block of \<^verbatim>\<open>getDynamicModels\<close>: \<open>Inr (Some ms)\<close> is \<^verbatim>\<open>return ms\<close>,
      \<open>Inr None\<close> is leaving the block without a \<^verbatim>\<open>return\<close>\<close>
  "fetchModels settings serverEnv p w =
     (case kind p of
        GeminiCli \<Rightarrow>
          (case ensureAuthenticated settings serverEnv p w of
             (Inl e, p1, w1) \<Rightarrow> (Inl e, p1, w1)
           | (Inr token, p1, w1) \<Rightarrow> (Inr (Some []), p1, w1))
      | QwenCode \<Rightarrow>
          (case getValidAccessToken settings serverEnv p w of
             (Inl e, p1, w1) \<Rightarrow> (Inl e, p1, w1)
           | (Inr token, p1, w1) \<Rightarrow>
               (case p_credentials p1 of
                  None \<Rightarrow> (Inl (Error ''Cannot read properties of null'' None), p1, w1)
                | Some creds \<Rightarrow>
                    (let w2 = emit (ModelsRequest (getBaseUrl creds @ ''/models'') token) w1
                     in case models_endpoint w1 (occurrences is_ModelsRequest (trace w1)) of
                          Inl msg \<Rightarrow> (Inl (Error msg None), p1, w2)
                        | Inr resp \<Rightarrow>
                            if ok resp then
                              (case json resp of
                                 Inl msg \<Rightarrow> (Inl (Error msg None), p1, w2)
                               | Inr None \<Rightarrow> (Inr None, p1, w2)
                               | Inr (Some items) \<Rightarrow>
                                   (case entries items of
                                      Inl e \<Rightarrow> (Inl e, p1, w2)
                                    | Inr ms \<Rightarrow> (Inr (Some (map toModelInfo (filter keepModel ms))), p1, w2)))
                            else (Inr None, p1, w2)))))"

definition getDynamicModels_try ::
  "IProviderSetting option \<Rightarrow> (string \<rightharpoonup> string) option \<Rightarrow> provider \<Rightarrow> 'r world
     \<Rightarrow> (error + ModelInfo list option) \<times> provider \<times> 'r world" where
  \<comment> \<open>the outer \<^verbatim>\<open>try\<close> block: the inner \<^verbatim>\<open>catch\<close> only writes to the console log\<close>
  "getDynamicModels_try settings serverEnv p w =
     (let p0 = initializeOAuthPath settings serverEnv p w
      in case fetchModels settings serverEnv p0 w of
           (Inl authError, p1, w1) \<Rightarrow> (Inr None, p1, w1)
         | (Inr r, p1, w1) \<Rightarrow> (Inr r, p1, w1))"

definition getDynamicModels ::
  "IProviderSetting option \<Rightarrow> (string \<rightharpoonup> string) option \<Rightarrow> provider \<Rightarrow> 'r world
     \<Rightarrow> (error + ModelInfo list) \<times> provider \<times> 'r world" where
  \<comment> \<open>the parameter \<^verbatim>\<open>apiKeys\<close> is not used by the body\<close>
  "getDynamicModels settings serverEnv p w =
     (if window_defined w then (Inr [], p, w)
      else (case getDynamicModels_try settings serverEnv p w of
              (Inr (Some ms), p1, w1) \<Rightarrow> (Inr ms, p1, w1)
            | (Inr None, p1, w1) \<Rightarrow> (Inr [], p1, w1)
            | (Inl e, p1, w1) \<Rightarrow> (Inr [], p1, emit (ConsoleError (err_message e)) w1)))"

section \<open>Model client factory\<close>

text \<open>
  The handle returned by \<^verbatim>\<open>getModelInstance\<close> closes over two variables,
  \<^verbatim>\<open>clientPromise\<close> and \<^verbatim>\<open>isInitializing\<close>, and over the settings and the environment
  record of its options. A client promise stands for the outcome it settles with.
\<close>

record handle =
  h_model :: string
  h_settings :: "IProviderSetting option"
  h_envRecord :: "string \<rightharpoonup> string"
  clientPromise :: "(error + client) option"
  isInitializing :: bool

record options =
  o_model :: string
  o_serverEnv :: "(string \<rightharpoonup> string) option"
  o_providerSettings :: "(string \<rightharpoonup> IProviderSetting) option"

definition getModelInstance :: "options \<Rightarrow> provider \<Rightarrow> 'r world \<Rightarrow> error + handle" where
  "getModelInstance opts p w =
     (if window_defined w
      then Inl (Error (provider_name (kind p) @ ''Provider.getModelInstance must be called on the server'') None)
      else Inr \<lparr>h_model = o_model opts,
                h_settings = (case o_providerSettings opts of None \<Rightarrow> None
                              | Some m \<Rightarrow> m (provider_name (kind p))),
                h_envRecord = (case o_serverEnv opts of None \<Rightarrow> Map.empty | Some env \<Rightarrow> env),
                clientPromise = None,
                isInitializing = False\<rparr>)"

definition auth_hint :: "provider_kind \<Rightarrow> string" where
  "auth_hint k = (case k of
      QwenCode \<Rightarrow> ''. Please ensure OAuth credentials are properly configured in ~/.qwen/oauth_creds.json''
    | GeminiCli \<Rightarrow> ''. Please ensure OAuth credentials are properly configured in ~/.gemini/oauth_creds.json'')"

definition getAuthenticatedClient ::
  "handle \<Rightarrow> provider \<Rightarrow> 'r world \<Rightarrow> (error + client) \<times> handle \<times> provider \<times> 'r world" where
  "getAuthenticatedClient h p w =
     (if clientPromise h = None \<and> \<not> isInitializing h then
        (case kind p of
           QwenCode \<Rightarrow>
             \<comment> \<open>\<^verbatim>\<open>clientPromise = this.ensureClient(...)\<close> is assigned before it is awaited\<close>
             (case ensureClient (h_settings h) (Some (h_envRecord h)) p w of
                (Inr c, p1, w1) \<Rightarrow>
                  (Inr c, h\<lparr>clientPromise := Some (Inr c), isInitializing := False\<rparr>, p1, w1)
              | (Inl e, p1, w1) \<Rightarrow>
                  (Inl (Error (''QwenCode authentication failed: '' @ err_message e @ auth_hint QwenCode) None),
                   h\<lparr>clientPromise := Some (Inl e), isInitializing := False\<rparr>, p1,
                   emit (ConsoleError (err_message e)) w1))
         | GeminiCli \<Rightarrow>
             \<comment> \<open>\<^verbatim>\<open>clientPromise = Promise.resolve(client)\<close> is assigned after the token is there\<close>
             (case ensureAuthenticated (h_settings h) (Some (h_envRecord h)) p w of
                (Inr token, p1, w1) \<Rightarrow>
                  (let c = \<lparr>baseURL = None, apiKey = token\<rparr>
                   in (Inr c, h\<lparr>clientPromise := Some (Inr c), isInitializing := False\<rparr>, p1, w1))
              | (Inl e, p1, w1) \<Rightarrow>
                  (Inl (Error (''GeminiCli authentication failed: '' @ err_message e @ auth_hint GeminiCli) None),
                   h\<lparr>isInitializing := False\<rparr>, p1, w1)))
      else (case clientPromise h of
              Some settled \<Rightarrow> (settled, h, p, w)
            | None \<Rightarrow> (Inl (Error ''Client initialization in progress'' None), h, p, w)))"

definition doGenerate :: "handle \<Rightarrow> provider \<Rightarrow> 'r world \<Rightarrow> (error + 'r) \<times> handle \<times> provider \<times> 'r world" where
  \<comment> \<open>the function the proxy returns for \<^verbatim>\<open>doGenerate\<close> and for \<^verbatim>\<open>doStream\<close>\<close>
  "doGenerate h p w =
     (case getAuthenticatedClient h p w of
        (Inl e, h1, p1, w1) \<Rightarrow> (Inl e, h1, p1, w1)
      | (Inr c, h1, p1, w1) \<Rightarrow>
          (case callApiWithRetry invokeApi p1 w1 of
             (r, p2, w2) \<Rightarrow> (r, h1, p2, w2)))"

definition authenticate :: "handle \<Rightarrow> provider \<Rightarrow> 'r world \<Rightarrow> (error + client) \<times> provider \<times> 'r world" where
  \<comment> \<open>the orchestrator as \<^verbatim>\<open>getAuthenticatedClient\<close> calls it: \<^verbatim>\<open>ensureClient\<close> in qwen-code.ts,
      \<^verbatim>\<open>ensureAuthenticated\<close> and a client made from its token in gemini-cli.ts\<close>
  "authenticate h p w =
     (case kind p of
        QwenCode \<Rightarrow> ensureClient (h_settings h) (Some (h_envRecord h)) p w
      | GeminiCli \<Rightarrow>
          (case ensureAuthenticated (h_settings h) (Some (h_envRecord h)) p w of
             (Inl e, p1, w1) \<Rightarrow> (Inl e, p1, w1)
           | (Inr token, p1, w1) \<Rightarrow> (Inr \<lparr>baseURL = None, apiKey = token\<rparr>, p1, w1)))"

definition doGenerate_revalidating :: "handle \<Rightarrow> provider \<Rightarrow> 'r world \<Rightarrow> (error + 'r) \<times> provider \<times> 'r world" where
  \<comment> \<open>the behaviour the specification words for every invocation: the orchestrator first,
      then the outbound call through the retry wrapper\<close>
  "doGenerate_revalidating h p w =
     (case authenticate h p w of
        (Inl e, p1, w1) \<Rightarrow> (Inl e, p1, w1)
      | (Inr c, p1, w1) \<Rightarrow> callApiWithRetry invokeApi p1 w1)"

definition new_provider :: "provider_kind \<Rightarrow> provider" where
  \<comment> \<open>the field initialisers of the two classes\<close>
  "new_provider k =
     \<lparr>kind = k, p_credentials = None, p_refreshPromise = None, p_oauthPath = None,
      p_initialized = False, p_client = None, p_oauthConfig = None\<rparr>"

section \<open>Concurrent callers of the refresh coordinator\<close>

text \<open>
  The runtime is a single-threaded event loop: a task runs until it awaits, and a task
  that awaits a promise resumes at some later turn after the promise has settled.
  The configuration holds the provider, the world, the promises created so far and
  the tasks that have called \<^verbatim>\<open>refreshAccessToken\<close>. A schedule is a list of actions,
  chosen by the environment:
  \<^item> \<open>Call t creds\<close>: task \<open>t\<close> calls \<^verbatim>\<open>refreshAccessToken(creds)\<close> and runs to its
    \<^verbatim>\<open>await\<close>. With a non-null slot it awaits the promise in the slot. With a null slot it
    starts \<^verbatim>\<open>performTokenRefresh\<close>, stores the new promise in the slot and awaits it as
    the owner (the caller whose \<^verbatim>\<open>finally\<close> block clears the slot). The effects of
    \<^verbatim>\<open>performTokenRefresh\<close> are recorded when the operation starts; the promise carries
    the outcome and delivers it only after it has settled.
  \<^item> \<open>Settle k\<close>: the promise \<open>k\<close> settles.
  \<^item> \<open>Resume t\<close>: task \<open>t\<close>, whose promise has settled, continues after its \<^verbatim>\<open>await\<close>:
    it returns (or throws) the outcome, and the owner first sets the slot to null.
  An action that is not enabled leaves the configuration as it is.
\<close>

datatype task = Awaiting promise bool | Returned "error + credentials"

record 'r config =
  c_provider :: provider
  c_world :: "'r world"
  c_created :: nat
  c_settled :: "nat set"
  c_tasks :: "nat \<rightharpoonup> task"

datatype action = Call nat credentials | Settle nat | Resume nat

fun is_Call :: "action \<Rightarrow> bool" where
  "is_Call (Call _ _) = True"
| "is_Call _ = False"

fun step :: "action \<Rightarrow> 'r config \<Rightarrow> 'r config" where
  "step (Call t creds) cfg =
     (if c_tasks cfg t \<noteq> None then cfg
      else (case p_refreshPromise (c_provider cfg) of
              Some pr \<Rightarrow> cfg\<lparr>c_tasks := (c_tasks cfg)(t \<mapsto> Awaiting pr False)\<rparr>
            | None \<Rightarrow>
                (case performTokenRefresh (c_provider cfg) creds (c_world cfg) of
                   (r, p1, w1) \<Rightarrow>
                     cfg\<lparr>c_provider := p1\<lparr>p_refreshPromise := Some (Promise (c_created cfg) r)\<rparr>,
                         c_world := w1,
                         c_created := Suc (c_created cfg),
                         c_tasks := (c_tasks cfg)(t \<mapsto> Awaiting (Promise (c_created cfg) r) True)\<rparr>)))"
| "step (Settle k) cfg =
     (if k < c_created cfg then cfg\<lparr>c_settled := insert k (c_settled cfg)\<rparr> else cfg)"
| "step (Resume t) cfg =
     (case c_tasks cfg t of
        Some (Awaiting pr owner) \<Rightarrow>
          if promise_id pr \<in> c_settled cfg
          then cfg\<lparr>c_tasks := (c_tasks cfg)(t \<mapsto> Returned (outcome pr)),
                   c_provider := (if owner then (c_provider cfg)\<lparr>p_refreshPromise := None\<rparr>
                                  else c_provider cfg)\<rparr>
          else cfg
      | _ \<Rightarrow> cfg)"

fun run :: "action list \<Rightarrow> 'r config \<Rightarrow> 'r config" where
  "run [] cfg = cfg"
| "run (a # as) cfg = run as (step a cfg)"

definition init_config :: "provider \<Rightarrow> 'r world \<Rightarrow> 'r config" where
  "init_config p w = \<lparr>c_provider = p, c_world = w, c_created = 0, c_settled = {}, c_tasks = Map.empty\<rparr>"

section \<open>Example inputs\<close>

definition example_creds :: credentials where
  "example_creds =
     \<lparr>access_token = Some ''A1'', refresh_token = Some ''R1'', token_type = Some ''Bearer'',
      expiry_date = Some 1000, resource_url = None\<rparr>"

definition example_token_data :: token_data where
  "example_token_data =
     \<lparr>td_access_token = Some ''A2'', td_token_type = None, td_refresh_token = None,
      td_expires_in = Some 3600, td_error = None, td_error_description = None\<rparr>"

definition example_world :: "string world" where
  "example_world =
     \<lparr>now = 5000, elapse = (\<lambda>k. 1), trace = [], window_defined = False,
      process_env = Some Map.empty, homedir = ''/home/u'',
      path_join = (\<lambda>xs. foldr (\<lambda>a b. if b = [] then a else a @ ''/'' @ b) xs []),
      path_resolve = (\<lambda>s. s), path_dirname = (\<lambda>s. ''/home/u/.qwen''),
      files = (\<lambda>path. Inl ''ENOENT: no such file or directory''),
      mkdir_error = (\<lambda>path. None), write_error = (\<lambda>path. None),
      JSON_parse = (\<lambda>s. Inr (JsonValue example_creds)), JSON_stringify = (\<lambda>c. ''{}''),
      token_endpoint = (\<lambda>k. Inr \<lparr>ok = True, status = 200, statusText = ''OK'', body_text = [],
                                  json = Inr example_token_data\<rparr>),
      config_endpoint = (\<lambda>k. Inr \<lparr>ok = True, status = 200, statusText = ''OK'', body_text = [],
                                   json = Inr (Some \<lparr>oauthClientId = Some ''id'', oauthClientSecret = Some ''secret''\<rparr>)\<rparr>),
      models_endpoint = (\<lambda>k. Inl ''fetch failed''),
      api = (\<lambda>k. Inr ''result'')\<rparr>"

definition example_handle :: handle where
  \<comment> \<open>a handle as \<^verbatim>\<open>getModelInstance\<close> returns it\<close>
  "example_handle =
     \<lparr>h_model = ''qwen3-coder-plus'', h_settings = None, h_envRecord = Map.empty,
      clientPromise = None, isInitializing = False\<rparr>"

definition example_provider :: "provider_kind \<Rightarrow> provider" where
  \<comment> \<open>a provider that has loaded \<open>example_creds\<close>\<close>
  "example_provider k = (new_provider k)\<lparr>p_credentials := Some example_creds, p_initialized := True\<rparr>"

section \<open>Predicates used in the proofs\<close>

text \<open>
  \<open>frame w w'\<close>: the world \<open>w'\<close> differs from \<open>w\<close> at most in the trace, the clock and
  the files. \<open>keeps p p'\<close>: the provider \<open>p'\<close> differs from \<open>p\<close> at most in the cached
  OAuth client configuration. \<open>quiet P\<close>: the events selected by \<open>P\<close> are not those of
  the file system or of the console. The remaining predicates are invariants of the
  event loop, and the last definitions are the inputs of the concrete runs.
\<close>

definition frame :: "'r world \<Rightarrow> 'r world \<Rightarrow> bool" where
  "frame w w' = (w' = w\<lparr>trace := trace w', now := now w', files := files w'\<rparr>)"

definition quiet :: "(event \<Rightarrow> bool) \<Rightarrow> bool" where
  "quiet P = ((\<forall>d. \<not> P (Mkdir d)) \<and> (\<forall>f c. \<not> P (WriteFile f c)) \<and> (\<forall>m. \<not> P (ConsoleError m)))"

definition refreshed :: "'r world \<Rightarrow> token_data \<Rightarrow> bool" where
  "refreshed w td = (\<exists>resp. token_endpoint w (occurrences is_TokenRequest (trace w)) = Inr resp
       \<and> ok resp \<and> json resp = Inr td \<and> \<not> truthy (td_error td))"

definition keeps :: "provider \<Rightarrow> provider \<Rightarrow> bool" where
  "keeps p p' = (p' = p\<lparr>p_oauthConfig := p_oauthConfig p'\<rparr>)"

definition shares :: "promise \<Rightarrow> nat \<Rightarrow> 'r config \<Rightarrow> bool" where
  \<comment> \<open>every task of the configuration awaits the promise or has returned its outcome; the owner is the given task\<close>
  "shares pr t0 cfg =
     (\<forall>t. c_tasks cfg t = None \<or> c_tasks cfg t = Some (Awaiting pr (t = t0)) \<or> c_tasks cfg t = Some (Returned (outcome pr)))"

definition in_flight :: "promise \<Rightarrow> nat \<Rightarrow> provider \<Rightarrow> 'r world \<Rightarrow> 'r config \<Rightarrow> bool" where
  "in_flight pr t0 p1 w1 cfg =
     (c_provider cfg = p1\<lparr>p_refreshPromise := Some pr\<rparr> \<and> c_world cfg = w1 \<and> c_created cfg = Suc (promise_id pr)
      \<and> c_tasks cfg t0 = Some (Awaiting pr True) \<and> shares pr t0 cfg)"

definition draining :: "promise \<Rightarrow> nat \<Rightarrow> 'r world \<Rightarrow> 'r config \<Rightarrow> bool" where
  "draining pr t0 w1 cfg = (c_world cfg = w1 \<and> c_created cfg = Suc (promise_id pr) \<and> shares pr t0 cfg)"

definition owner_holds_slot :: "'r config \<Rightarrow> bool" where
  "owner_holds_slot cfg =
     ((\<forall>t pr. c_tasks cfg t = Some (Awaiting pr True) \<longrightarrow> p_refreshPromise (c_provider cfg) = Some pr)
      \<and> (\<forall>t u pr pr'. c_tasks cfg t = Some (Awaiting pr True) \<and> c_tasks cfg u = Some (Awaiting pr' True) \<longrightarrow> t = u))"

definition world_refresh_rejected :: "string world" where
  \<comment> \<open>the wrapped API answers 401 and the token endpoint refuses the refresh token\<close>
  "world_refresh_rejected =
     example_world
       \<lparr>token_endpoint := (\<lambda>k. Inr \<lparr>ok = False, status = 400, statusText = ''Bad Request'',
                                   body_text = ''invalid_grant'', json = Inl ''no body''\<rparr>),
        api := (\<lambda>k. Inl (Error ''Unauthorized'' (Some 401)))\<rparr>"

definition world_unauthorized_once :: "string world" where
  \<comment> \<open>the wrapped API answers 401 to the first call and succeeds afterwards\<close>
  "world_unauthorized_once =
     example_world\<lparr>api := (\<lambda>k. if k = 0 then Inl (Error ''Unauthorized'' (Some 401)) else Inr ''result'')\<rparr>"

definition blank_token_data :: token_data where
  \<comment> \<open>a token response whose \<^verbatim>\<open>token_type\<close> and \<^verbatim>\<open>refresh_token\<close> members are empty strings\<close>
  "blank_token_data = example_token_data\<lparr>td_token_type := Some [], td_refresh_token := Some []\<rparr>"

definition world_blank_token_data :: "string world" where
  "world_blank_token_data =
     example_world
       \<lparr>token_endpoint := (\<lambda>k. Inr \<lparr>ok = True, status = 200, statusText = ''OK'', body_text = [],
                                   json = Inr blank_token_data\<rparr>)\<rparr>"

definition blank_access_token_file :: string where
  \<comment> \<open>a credential file with both token members, the access token being the empty string\<close>
  \<open>blank_access_token_file =
     ''{"access_token":"","refresh_token":"R1","token_type":"Bearer","expiry_date":1000}''\<close>

definition example_file :: string where
  \<comment> \<open>the credential file of \<open>example_creds\<close>\<close>
  \<open>example_file =
     ''{"access_token":"A1","refresh_token":"R1","token_type":"Bearer","expiry_date":1000}''\<close>

definition world_blank_access_token :: "string world" where
  \<comment> \<open>the credential file is \<open>blank_access_token_file\<close>, and \<^verbatim>\<open>JSON.parse\<close> reads it as it reads\<close>
  "world_blank_access_token =
     example_world
       \<lparr>files := (\<lambda>path. Inr blank_access_token_file),
        JSON_parse := (\<lambda>s. if s = blank_access_token_file
                           then Inr (JsonValue (example_creds\<lparr>access_token := Some []\<rparr>))
                           else Inl ''SyntaxError: Unexpected token'')\<rparr>"

definition world_with_file :: "string world" where
  \<comment> \<open>the credential file holds \<open>example_creds\<close>\<close>
  "world_with_file =
     example_world
       \<lparr>files := (\<lambda>path. Inr example_file),
        JSON_parse := (\<lambda>s. if s = example_file then Inr (JsonValue example_creds)
                           else Inl ''SyntaxError: Unexpected token'')\<rparr>"

definition world_read_only :: "string world" where
  \<comment> \<open>the directory of the credential file cannot be created or written\<close>
  "world_read_only =
     example_world\<lparr>mkdir_error := (\<lambda>d. Some ''EROFS: read-only file system''),
                   write_error := (\<lambda>f. Some ''EROFS: read-only file system'')\<rparr>"

definition first_call :: "provider_kind \<Rightarrow> (error + string) \<times> handle \<times> provider \<times> string world" where
  \<comment> \<open>the first \<^verbatim>\<open>doGenerate\<close> on a new handle; the cached token has expired, so it refreshes\<close>
  "first_call k = doGenerate example_handle (example_provider k) example_world"

definition later_world :: "provider_kind \<Rightarrow> string world" where
  \<comment> \<open>the world after the first call, at a time when the refreshed token has expired as well\<close>
  "later_world k = (snd (snd (snd (first_call k))))\<lparr>now := 4000000\<rparr>"

definition three_callers :: "action list" where
  \<comment> \<open>three callers arrive before the operation settles; then it settles and each caller resumes\<close>
  "three_callers =
     Call 1 example_creds # [Call 2 example_creds, Call 3 example_creds]
       @ [Settle 0, Resume 1, Resume 2, Resume 3]"

section \<open>Properties of the token validator\<close>

text \<open>
  C3. The validator answers true exactly when \<open>expiry_date\<close> is present, is not zero
  and lies more than 30000 ms after the current time; so it answers false when
  \<open>expiry_date\<close> is at most the current time plus 30000, and when \<open>expiry_date\<close> is
  absent or zero whatever the time. It is a function of the record and of the clock
  value alone: it takes no provider state and no world, and returns only the boolean.
\<close>

theorem isTokenValid_iff:
  "isTokenValid creds date_now \<longleftrightarrow>
     (\<exists>e. expiry_date creds = Some e \<and> e \<noteq> 0 \<and> e > date_now + 30000)"
  by (cases "expiry_date creds")
     (auto simp: isTokenValid_def truthy_num_def TOKEN_REFRESH_BUFFER_def)

section \<open>Configuration resolution and persistence\<close>

lemma saveCredentials_never_throws: "fst (saveCredentials p creds w) = Inr ()"
  by (simp add: saveCredentials_def split: prod.splits sum.splits)

lemma saveCredentials_not_Inl: "saveCredentials p creds w \<noteq> (Inl e, w')"
  using saveCredentials_never_throws[of p creds w] by auto

lemma initializeOAuthPath_idem:
  "initializeOAuthPath s2 e2 (initializeOAuthPath s1 e1 p w1) w2 = initializeOAuthPath s1 e1 p w1"
  by (simp add: initializeOAuthPath_def)

text \<open>
  C8. On a provider that is not yet initialised, \<^verbatim>\<open>initializeOAuthPath\<close> sets the path to
  the first non-empty value among the provider setting, the server environment and the
  process environment, in that order; a second call, with whatever inputs, returns the
  provider unchanged.
\<close>

theorem initializeOAuthPath_first_write_wins:
  "(\<not> p_initialized p \<longrightarrow>
      p_oauthPath (initializeOAuthPath s1 e1 p w1) =
        (let fromSettings = (case s1 of None \<Rightarrow> None | Some s \<Rightarrow> s_baseUrl s);
             fromServerEnv = lookup_env e1 (apiTokenKey (kind p));
             fromProcessEnv = lookup_env (process_env w1) (apiTokenKey (kind p))
         in if truthy fromSettings then fromSettings
            else if truthy fromServerEnv then fromServerEnv
            else fromProcessEnv))
   \<and> initializeOAuthPath s2 e2 (initializeOAuthPath s1 e1 p w1) w2 = initializeOAuthPath s1 e1 p w1"
  by (simp add: initializeOAuthPath_def or_else_def Let_def)

lemma exchangeToken_fst:
  "fst (exchangeToken params p creds w) =
     (case token_endpoint w (occurrences is_TokenRequest (trace w)) of
        Inl msg \<Rightarrow> Inl (Error msg None)
      | Inr resp \<Rightarrow>
          if \<not> ok resp
          then Inl (Error (''Token refresh failed: '' @ show_nat (status resp) @ '' '' @ statusText resp
                               @ ''. Response: '' @ body_text resp) None)
          else (case json resp of
                  Inl msg \<Rightarrow> Inl (Error msg None)
                | Inr tokenData \<Rightarrow>
                    if truthy (td_error tokenData)
                    then Inl (Error (''Token refresh error: '' @ or_default (td_error tokenData) []
                                      @ '' - '' @ or_default (td_error_description tokenData) ''Unknown error'') None)
                    else Inr (newCredentials creds tokenData (now w + elapse w (length (trace w))))))"
  by (simp add: exchangeToken_def Let_def emit_def saveCredentials_not_Inl split: sum.splits prod.splits)

lemma exchangeToken_fst_upd:
  "fst (exchangeToken params p creds (w\<lparr>mkdir_error := m, write_error := e\<rparr>)) = fst (exchangeToken params p creds w)"
  by (simp add: exchangeToken_fst split: sum.splits)

lemma fetchOAuthConfig_upd:
  "fetchOAuthConfig p (w\<lparr>mkdir_error := m, write_error := e\<rparr>) =
     (case fetchOAuthConfig p w of (r, p1, w1) \<Rightarrow> (r, p1, w1\<lparr>mkdir_error := m, write_error := e\<rparr>))"
  by (simp add: fetchOAuthConfig_def fetchOAuthConfig_try_def Let_def emit_def split: option.splits sum.splits)

lemma performTokenRefresh_upd:
  "fst (performTokenRefresh p creds (w\<lparr>mkdir_error := m, write_error := e\<rparr>)) = fst (performTokenRefresh p creds w)
   \<and> fst (snd (performTokenRefresh p creds (w\<lparr>mkdir_error := m, write_error := e\<rparr>))) = fst (snd (performTokenRefresh p creds w))"
  by (cases "kind p")
     (simp_all add: performTokenRefresh_def performTokenRefresh_try_def case_prod_beta
        exchangeToken_fst_upd fetchOAuthConfig_upd split: sum.splits)

lemma refreshAccessToken_upd:
  "fst (refreshAccessToken p creds (w\<lparr>mkdir_error := m, write_error := e\<rparr>)) = fst (refreshAccessToken p creds w)
   \<and> fst (snd (refreshAccessToken p creds (w\<lparr>mkdir_error := m, write_error := e\<rparr>))) = fst (snd (refreshAccessToken p creds w))"
  by (simp add: refreshAccessToken_def case_prod_beta performTokenRefresh_upd split: option.splits)

lemma refreshIfExpired_upd:
  "fst (refreshIfExpired creds p (w\<lparr>mkdir_error := m, write_error := e\<rparr>)) = fst (refreshIfExpired creds p w)
   \<and> fst (snd (refreshIfExpired creds p (w\<lparr>mkdir_error := m, write_error := e\<rparr>))) = fst (snd (refreshIfExpired creds p w))"
  by (simp add: refreshIfExpired_def case_prod_beta refreshAccessToken_upd split: sum.splits)

lemma getCredentialPath_upd:
  "getCredentialPath k (w\<lparr>mkdir_error := m, write_error := e\<rparr>) c = getCredentialPath k w c"
  by (simp add: getCredentialPath_def split: provider_kind.splits)

lemma loadCredentials_upd:
  "loadCredentials p (w\<lparr>mkdir_error := m, write_error := e\<rparr>) =
     (case loadCredentials p w of (r, w1) \<Rightarrow> (r, w1\<lparr>mkdir_error := m, write_error := e\<rparr>))"
  by (simp add: loadCredentials_def loadCredentials_try_def getCredentialPath_upd Let_def emit_def
        split: sum.splits parsed.splits)

lemma initializeOAuthPath_upd:
  "initializeOAuthPath s env p (w\<lparr>mkdir_error := m, write_error := e\<rparr>) = initializeOAuthPath s env p w"
  by (simp add: initializeOAuthPath_def)

lemma loadAndRefresh_upd:
  "fst (loadAndRefresh s env p (w\<lparr>mkdir_error := m, write_error := e\<rparr>)) = fst (loadAndRefresh s env p w)
   \<and> fst (snd (loadAndRefresh s env p (w\<lparr>mkdir_error := m, write_error := e\<rparr>))) = fst (snd (loadAndRefresh s env p w))"
  by (simp add: loadAndRefresh_def Let_def initializeOAuthPath_upd loadCredentials_upd case_prod_beta
        refreshIfExpired_upd split: option.splits sum.splits)

text \<open>
  C5. \<^verbatim>\<open>saveCredentials\<close> never throws. When its \<^verbatim>\<open>try\<close> block fails it only adds the
  console report to the effects of the block and leaves the files as they were. The
  outcome of \<^verbatim>\<open>performTokenRefresh\<close>, and the outcome and the cached record of
  \<^verbatim>\<open>ensureClient\<close> and of \<^verbatim>\<open>ensureAuthenticated\<close>, are the same whether or not creating
  the directory or writing the file fails (\<open>m\<close> and \<open>e\<close> are any failure behaviour of
  \<^verbatim>\<open>mkdir\<close> and \<^verbatim>\<open>writeFile\<close>).
\<close>

theorem saveCredentials_non_fatal:
  "fst (saveCredentials p creds w) = Inr ()
   \<and> (\<forall>err. fst (saveCredentials_try p creds w) = Inl err \<longrightarrow>
         snd (saveCredentials p creds w) = emit (ConsoleError (err_message err)) (snd (saveCredentials_try p creds w))
         \<and> files (snd (saveCredentials p creds w)) = files w)
   \<and> fst (performTokenRefresh p creds (w\<lparr>mkdir_error := m, write_error := e\<rparr>)) = fst (performTokenRefresh p creds w)
   \<and> fst (ensureClient s env p (w\<lparr>mkdir_error := m, write_error := e\<rparr>)) = fst (ensureClient s env p w)
   \<and> p_credentials (fst (snd (ensureClient s env p (w\<lparr>mkdir_error := m, write_error := e\<rparr>))))
       = p_credentials (fst (snd (ensureClient s env p w)))
   \<and> fst (ensureAuthenticated s env p (w\<lparr>mkdir_error := m, write_error := e\<rparr>)) = fst (ensureAuthenticated s env p w)
   \<and> p_credentials (fst (snd (ensureAuthenticated s env p (w\<lparr>mkdir_error := m, write_error := e\<rparr>))))
       = p_credentials (fst (snd (ensureAuthenticated s env p w)))"
proof -
  have a: "fst (saveCredentials p creds w) = Inr ()"
    by (rule saveCredentials_never_throws)
  have b: "\<forall>err. fst (saveCredentials_try p creds w) = Inl err \<longrightarrow>
         snd (saveCredentials p creds w) = emit (ConsoleError (err_message err)) (snd (saveCredentials_try p creds w))
         \<and> files (snd (saveCredentials p creds w)) = files w"
    by (auto simp: saveCredentials_def saveCredentials_try_def Let_def emit_def split: option.splits)
  have c: "fst (ensureClient s env p (w\<lparr>mkdir_error := m, write_error := e\<rparr>)) = fst (ensureClient s env p w)
     \<and> p_credentials (fst (snd (ensureClient s env p (w\<lparr>mkdir_error := m, write_error := e\<rparr>))))
       = p_credentials (fst (snd (ensureClient s env p w)))"
    by (simp add: ensureClient_def case_prod_beta loadAndRefresh_upd Let_def split: sum.splits)
  have d: "fst (ensureAuthenticated s env p (w\<lparr>mkdir_error := m, write_error := e\<rparr>)) = fst (ensureAuthenticated s env p w)
     \<and> p_credentials (fst (snd (ensureAuthenticated s env p (w\<lparr>mkdir_error := m, write_error := e\<rparr>))))
       = p_credentials (fst (snd (ensureAuthenticated s env p w)))"
    by (simp add: ensureAuthenticated_def case_prod_beta loadAndRefresh_upd split: sum.splits)
  show ?thesis using a b c d performTokenRefresh_upd by blast
qed

section \<open>What a refresh changes\<close>

text \<open>
  A refresh changes the world only in the trace, the clock and the files, issues at
  most one token request, records no event of another kind than its own, and leaves
  every field of the provider but the cached client configuration.
\<close>

lemma frame_refl: "frame w w"
  by (simp add: frame_def)

lemma frame_trans: 
  assumes a: "frame w w1" and b: "frame w1 w2" shows "frame w w2"
proof -
  have "w2 = (w\<lparr>trace := trace w1, now := now w1, files := files w1\<rparr>)\<lparr>trace := trace w2, now := now w2, files := files w2\<rparr>"
    using a b unfolding frame_def by metis
  then show ?thesis unfolding frame_def by simp
qed

lemma frame_emit: "frame w (emit ev w)"
  by (simp add: frame_def emit_def)

lemma occurrences_emit:
  "occurrences P (trace (emit ev w)) = occurrences P (trace w) + (if P ev then 1 else 0)"
  by (simp add: occurrences_def emit_def)

lemma saveCredentials_frame: "frame w (snd (saveCredentials p creds w))"
  by (simp add: saveCredentials_def saveCredentials_try_def Let_def emit_def frame_def split: option.splits)

lemma saveCredentials_occ:
  "quiet P \<Longrightarrow> occurrences P (trace (snd (saveCredentials p creds w))) = occurrences P (trace w)"
  by (simp add: saveCredentials_def saveCredentials_try_def Let_def emit_def occurrences_def quiet_def split: option.splits)

lemma exchangeToken_cases:
  "(\<exists>td. refreshed w td \<and>
       exchangeToken params p creds w =
         (Inr (newCredentials creds td (now (emit (TokenRequest params) w))),
          snd (saveCredentials p (newCredentials creds td (now (emit (TokenRequest params) w)))
                 (emit (TokenRequest params) w))))
   \<or> (\<exists>e. exchangeToken params p creds w = (Inl e, emit (TokenRequest params) w) \<and> (\<forall>td. \<not> refreshed w td))"
  by (auto simp: exchangeToken_def Let_def refreshed_def saveCredentials_not_Inl split: sum.splits prod.splits)

lemma exchangeToken_frame: "frame w (snd (exchangeToken params p creds w))"
  using exchangeToken_cases[of w params p creds]
  by (auto intro: frame_emit frame_trans[OF frame_emit saveCredentials_frame])

lemma exchangeToken_occ:
  "quiet P \<Longrightarrow> occurrences P (trace (snd (exchangeToken params p creds w)))
      = occurrences P (trace w) + (if P (TokenRequest params) then 1 else 0)"
  using exchangeToken_cases[of w params p creds]
  by (auto simp: occurrences_emit saveCredentials_occ)

lemma fetchOAuthConfig_world:
  assumes "fetchOAuthConfig p w = (r, p1, w1)"
  shows "w1 = w \<or> w1 = emit ConfigRequest w \<or> (\<exists>m. w1 = emit (ConsoleError m) (emit ConfigRequest w))"
  using assms
  by (auto simp: fetchOAuthConfig_def fetchOAuthConfig_try_def Let_def split: option.splits sum.splits if_splits)

lemma fetchOAuthConfig_frame: "frame w (snd (snd (fetchOAuthConfig p w)))"
  using fetchOAuthConfig_world[of p w]
  by (cases "fetchOAuthConfig p w") (auto simp: frame_refl frame_emit intro: frame_trans[OF frame_emit frame_emit])

lemma fetchOAuthConfig_occ:
  "quiet P \<Longrightarrow> \<not> P ConfigRequest \<Longrightarrow>
     occurrences P (trace (snd (snd (fetchOAuthConfig p w)))) = occurrences P (trace w)"
  using fetchOAuthConfig_world[of p w]
  by (cases "fetchOAuthConfig p w") (auto simp: occurrences_emit quiet_def)

lemma keeps_refl: "keeps p p"
  by (simp add: keeps_def)

lemma keeps_upd: "keeps p (p\<lparr>p_oauthConfig := c\<rparr>)"
  by (simp add: keeps_def)

lemma keeps_trans:
  assumes a: "keeps p p1" and b: "keeps p1 p2" shows "keeps p p2"
proof -
  have "p2 = (p\<lparr>p_oauthConfig := p_oauthConfig p1\<rparr>)\<lparr>p_oauthConfig := p_oauthConfig p2\<rparr>"
    using a b unfolding keeps_def by metis
  then show ?thesis unfolding keeps_def by simp
qed

lemma keeps_credentials: "keeps p p' \<Longrightarrow> p_credentials p' = p_credentials p"
  unfolding keeps_def by (metis provider.select_convs(2) provider.surjective provider.update_convs(7))

lemma fetchOAuthConfig_provider: "keeps p (fst (snd (fetchOAuthConfig p w)))"
proof (cases "fetchOAuthConfig p w")
  case (fields r p1 w1)
  then have "p1 = p \<or> (\<exists>c. p1 = p\<lparr>p_oauthConfig := c\<rparr>)"
    by (auto simp: fetchOAuthConfig_def fetchOAuthConfig_try_def Let_def split: option.splits sum.splits if_splits)
  then show ?thesis using fields by (auto simp: keeps_refl keeps_upd)
qed

lemma performTokenRefresh_try_frame: "frame w (snd (snd (performTokenRefresh_try p creds w)))"
  by (cases "kind p")
     (auto simp: performTokenRefresh_try_def case_prod_beta exchangeToken_frame fetchOAuthConfig_frame
        intro: frame_trans[OF fetchOAuthConfig_frame exchangeToken_frame] split: sum.splits)

lemma performTokenRefresh_try_occ:
  "quiet P \<Longrightarrow> \<not> P ConfigRequest \<Longrightarrow>
     occurrences P (trace (snd (snd (performTokenRefresh_try p creds w)))) \<le> occurrences P (trace w) + 1
     \<and> ((\<forall>ps. \<not> P (TokenRequest ps)) \<longrightarrow>
          occurrences P (trace (snd (snd (performTokenRefresh_try p creds w)))) = occurrences P (trace w))"
  by (cases "kind p")
     (auto simp: performTokenRefresh_try_def case_prod_beta exchangeToken_occ fetchOAuthConfig_occ split: sum.splits)

lemma performTokenRefresh_try_provider: "keeps p (fst (snd (performTokenRefresh_try p creds w)))"
  by (cases "kind p")
     (auto simp: performTokenRefresh_try_def case_prod_beta keeps_refl fetchOAuthConfig_provider split: sum.splits)

lemma performTokenRefresh_frame: "frame w (snd (snd (performTokenRefresh p creds w)))"
  by (auto simp: performTokenRefresh_def case_prod_beta frame_refl performTokenRefresh_try_frame
        intro: frame_trans[OF performTokenRefresh_try_frame frame_emit] split: sum.splits)

lemma performTokenRefresh_occ:
  "quiet P \<Longrightarrow> \<not> P ConfigRequest \<Longrightarrow>
     occurrences P (trace (snd (snd (performTokenRefresh p creds w)))) \<le> occurrences P (trace w) + 1
     \<and> ((\<forall>ps. \<not> P (TokenRequest ps)) \<longrightarrow>
          occurrences P (trace (snd (snd (performTokenRefresh p creds w)))) = occurrences P (trace w))"
  using performTokenRefresh_try_occ[of P p creds w]
  by (auto simp: performTokenRefresh_def case_prod_beta occurrences_emit quiet_def split: sum.splits)

lemma performTokenRefresh_provider: "keeps p (fst (snd (performTokenRefresh p creds w)))"
  by (auto simp: performTokenRefresh_def case_prod_beta keeps_refl performTokenRefresh_try_provider split: sum.splits)

lemma refreshAccessToken_frame: "frame w (snd (snd (refreshAccessToken p creds w)))"
  by (auto simp: refreshAccessToken_def case_prod_beta frame_refl performTokenRefresh_frame split: option.splits)

lemma refreshAccessToken_occ:
  "quiet P \<Longrightarrow> \<not> P ConfigRequest \<Longrightarrow>
     occurrences P (trace (snd (snd (refreshAccessToken p creds w)))) \<le> occurrences P (trace w) + 1
     \<and> ((\<forall>ps. \<not> P (TokenRequest ps)) \<longrightarrow>
          occurrences P (trace (snd (snd (refreshAccessToken p creds w)))) = occurrences P (trace w))"
  using performTokenRefresh_occ[of P p creds w]
  by (auto simp: refreshAccessToken_def case_prod_beta split: option.splits)

lemma refreshAccessToken_credentials:
  "p_credentials (fst (snd (refreshAccessToken p creds w))) = p_credentials p"
  using keeps_credentials[OF performTokenRefresh_provider[of p creds w]]
  by (auto simp: refreshAccessToken_def case_prod_beta split: option.splits)

section \<open>Failure of a refresh\<close>

lemma initializeOAuthPath_credentials [simp]:
  "p_credentials (initializeOAuthPath s env p w) = p_credentials p"
  by (simp add: initializeOAuthPath_def)

lemma refreshIfExpired_failure:
  assumes "\<not> isTokenValid creds (now w)" and "fst (refreshAccessToken p creds w) = Inl e"
  shows "fst (refreshIfExpired creds p w) = Inl e
         \<and> p_credentials (fst (snd (refreshIfExpired creds p w))) = p_credentials p"
  using assms refreshAccessToken_credentials[of p creds w]
  by (cases "refreshAccessToken p creds w") (auto simp: refreshIfExpired_def)

text \<open>
  C10. When \<^verbatim>\<open>refreshAccessToken\<close> fails, the cached record is the record the refresh
  was called with: in \<^verbatim>\<open>ensureClient\<close> and \<^verbatim>\<open>ensureAuthenticated\<close>, both for a record
  that was cached before the call and for one that the call has just loaded, and in
  \<^verbatim>\<open>callApiWithRetry\<close> after a 401. The failure of the refresh is the failure of the call.
\<close>

theorem refresh_failure_keeps_cached_record:
  "(p_credentials p = Some creds \<and> \<not> isTokenValid creds (now w)
      \<and> fst (refreshAccessToken (initializeOAuthPath s env p w) creds w) = Inl e \<longrightarrow>
        fst (ensureClient s env p w) = Inl e
      \<and> p_credentials (fst (snd (ensureClient s env p w))) = Some creds
      \<and> fst (ensureAuthenticated s env p w) = Inl e
      \<and> p_credentials (fst (snd (ensureAuthenticated s env p w))) = Some creds)
   \<and> (p_credentials p = None \<and> loadCredentials (initializeOAuthPath s env p w) w = (Inr creds, w1)
      \<and> \<not> isTokenValid creds (now w1)
      \<and> fst (refreshAccessToken ((initializeOAuthPath s env p w)\<lparr>p_credentials := Some creds\<rparr>) creds w1) = Inl e \<longrightarrow>
        fst (ensureClient s env p w) = Inl e
      \<and> p_credentials (fst (snd (ensureClient s env p w))) = Some creds
      \<and> fst (ensureAuthenticated s env p w) = Inl e
      \<and> p_credentials (fst (snd (ensureAuthenticated s env p w))) = Some creds)
   \<and> (fst (apiCall w) = Inl e1 \<and> err_status e1 = Some 401 \<and> p_credentials p = Some creds
      \<and> fst (refreshAccessToken p creds (emit (ConsoleError (err_message e1)) (snd (apiCall w)))) = Inl e \<longrightarrow>
        fst (callApiWithRetry apiCall p w) = Inl e
      \<and> p_credentials (fst (snd (callApiWithRetry apiCall p w))) = Some creds)"
proof (intro conjI impI)
  assume a: "p_credentials p = Some creds \<and> \<not> isTokenValid creds (now w)
      \<and> fst (refreshAccessToken (initializeOAuthPath s env p w) creds w) = Inl e"
  then have l: "fst (loadAndRefresh s env p w) = Inl e
      \<and> p_credentials (fst (snd (loadAndRefresh s env p w))) = Some creds"
    using refreshIfExpired_failure[of creds w "initializeOAuthPath s env p w" e]
    by (simp add: loadAndRefresh_def Let_def)
  show "fst (ensureClient s env p w) = Inl e"
    using l by (cases "loadAndRefresh s env p w") (auto simp: ensureClient_def)
  show "p_credentials (fst (snd (ensureClient s env p w))) = Some creds"
    using l by (cases "loadAndRefresh s env p w") (auto simp: ensureClient_def)
  show "fst (ensureAuthenticated s env p w) = Inl e"
    using l by (cases "loadAndRefresh s env p w") (auto simp: ensureAuthenticated_def)
  show "p_credentials (fst (snd (ensureAuthenticated s env p w))) = Some creds"
    using l by (cases "loadAndRefresh s env p w") (auto simp: ensureAuthenticated_def)
next
  assume a: "p_credentials p = None \<and> loadCredentials (initializeOAuthPath s env p w) w = (Inr creds, w1)
      \<and> \<not> isTokenValid creds (now w1)
      \<and> fst (refreshAccessToken ((initializeOAuthPath s env p w)\<lparr>p_credentials := Some creds\<rparr>) creds w1) = Inl e"
  then have l: "fst (loadAndRefresh s env p w) = Inl e
      \<and> p_credentials (fst (snd (loadAndRefresh s env p w))) = Some creds"
    using refreshIfExpired_failure[of creds w1 "(initializeOAuthPath s env p w)\<lparr>p_credentials := Some creds\<rparr>" e]
    by (simp add: loadAndRefresh_def Let_def)
  show "fst (ensureClient s env p w) = Inl e"
    using l by (cases "loadAndRefresh s env p w") (auto simp: ensureClient_def)
  show "p_credentials (fst (snd (ensureClient s env p w))) = Some creds"
    using l by (cases "loadAndRefresh s env p w") (auto simp: ensureClient_def)
  show "fst (ensureAuthenticated s env p w) = Inl e"
    using l by (cases "loadAndRefresh s env p w") (auto simp: ensureAuthenticated_def)
  show "p_credentials (fst (snd (ensureAuthenticated s env p w))) = Some creds"
    using l by (cases "loadAndRefresh s env p w") (auto simp: ensureAuthenticated_def)
next
  assume a: "fst (apiCall w) = Inl e1 \<and> err_status e1 = Some 401 \<and> p_credentials p = Some creds
      \<and> fst (refreshAccessToken p creds (emit (ConsoleError (err_message e1)) (snd (apiCall w)))) = Inl e"
  show "fst (callApiWithRetry apiCall p w) = Inl e"
    using a
    by (cases "apiCall w"; cases "refreshAccessToken p creds (emit (ConsoleError (err_message e1)) (snd (apiCall w)))")
       (auto simp: callApiWithRetry_def Let_def)
  show "p_credentials (fst (snd (callApiWithRetry apiCall p w))) = Some creds"
    using a refreshAccessToken_credentials[of p creds "emit (ConsoleError (err_message e1)) (snd (apiCall w))"]
    by (cases "apiCall w"; cases "refreshAccessToken p creds (emit (ConsoleError (err_message e1)) (snd (apiCall w)))")
       (auto simp: callApiWithRetry_def Let_def)
qed

section \<open>Properties of the call wrapper\<close>

lemma quiet_ApiCall: "quiet (\<lambda>e. e = ApiCall)"
  by (simp add: quiet_def)

lemma frame_api: "frame w w' \<Longrightarrow> api w' = api w"
  unfolding frame_def by (metis world.select_convs(18) world.surjective world.update_convs(1,3,10))

lemma refreshAccessToken_no_ApiCall:
  assumes "refreshAccessToken p creds w = (r, p1, w1)"
  shows "occurrences (\<lambda>e. e = ApiCall) (trace w1) = occurrences (\<lambda>e. e = ApiCall) (trace w) \<and> api w1 = api w"
  using refreshAccessToken_occ[OF quiet_ApiCall, of p creds w] frame_api[OF refreshAccessToken_frame[of w p creds]] assms
  by simp

text \<open>
  C2, amended. \<^verbatim>\<open>callApiWithRetry\<close> invokes \<^verbatim>\<open>apiCall\<close> once. A success is returned.
  A failure whose status is not 401, or any failure when no record is cached,
  propagates as it is, with no refresh and no second invocation. After a failure with
  status 401 and with a cached record the wrapper calls \<^verbatim>\<open>refreshAccessToken\<close> once:
  when the refresh succeeds, the new record is cached and \<^verbatim>\<open>apiCall\<close> is invoked exactly
  once more, its outcome (result or failure) being the outcome of the wrapper; when the
  refresh fails, the failure of the refresh propagates and \<^verbatim>\<open>apiCall\<close> is not invoked
  again.
\<close>

theorem callApiWithRetry_retries_once:
  "(api w (occurrences (\<lambda>e. e = ApiCall) (trace w)) = Inr v \<longrightarrow>
      callApiWithRetry invokeApi p w = (Inr v, p, emit ApiCall w))
   \<and> (api w (occurrences (\<lambda>e. e = ApiCall) (trace w)) = Inl e
        \<and> \<not> (err_status e = Some 401 \<and> p_credentials p \<noteq> None) \<longrightarrow>
      callApiWithRetry invokeApi p w = (Inl e, p, emit (ConsoleError (err_message e)) (emit ApiCall w)))
   \<and> (api w (occurrences (\<lambda>e. e = ApiCall) (trace w)) = Inl e
        \<and> err_status e = Some 401 \<and> p_credentials p = Some creds
        \<and> refreshAccessToken p creds (emit (ConsoleError (err_message e)) (emit ApiCall w)) = (Inr new, p1, w3) \<longrightarrow>
      callApiWithRetry invokeApi p w
        = (api w (occurrences (\<lambda>e. e = ApiCall) (trace w) + 1), p1\<lparr>p_credentials := Some new\<rparr>, emit ApiCall w3)
      \<and> occurrences (\<lambda>e. e = ApiCall) (trace (emit ApiCall w3)) = occurrences (\<lambda>e. e = ApiCall) (trace w) + 2)
   \<and> (api w (occurrences (\<lambda>e. e = ApiCall) (trace w)) = Inl e
        \<and> err_status e = Some 401 \<and> p_credentials p = Some creds
        \<and> refreshAccessToken p creds (emit (ConsoleError (err_message e)) (emit ApiCall w)) = (Inl e2, p1, w3) \<longrightarrow>
      callApiWithRetry invokeApi p w = (Inl e2, p1, w3)
      \<and> occurrences (\<lambda>e. e = ApiCall) (trace w3) = occurrences (\<lambda>e. e = ApiCall) (trace w) + 1)"
proof (intro conjI impI)
  assume "api w (occurrences (\<lambda>e. e = ApiCall) (trace w)) = Inr v"
  then show "callApiWithRetry invokeApi p w = (Inr v, p, emit ApiCall w)"
    by (simp add: callApiWithRetry_def invokeApi_def)
next
  assume "api w (occurrences (\<lambda>e. e = ApiCall) (trace w)) = Inl e
        \<and> \<not> (err_status e = Some 401 \<and> p_credentials p \<noteq> None)"
  then show "callApiWithRetry invokeApi p w = (Inl e, p, emit (ConsoleError (err_message e)) (emit ApiCall w))"
    by (auto simp: callApiWithRetry_def invokeApi_def Let_def)
next
  assume a: "api w (occurrences (\<lambda>e. e = ApiCall) (trace w)) = Inl e
        \<and> err_status e = Some 401 \<and> p_credentials p = Some creds
        \<and> refreshAccessToken p creds (emit (ConsoleError (err_message e)) (emit ApiCall w)) = (Inr new, p1, w3)"
  then have r: "occurrences (\<lambda>e. e = ApiCall) (trace w3) = occurrences (\<lambda>e. e = ApiCall) (trace w) + 1 \<and> api w3 = api w"
    using refreshAccessToken_no_ApiCall[of p creds "emit (ConsoleError (err_message e)) (emit ApiCall w)" "Inr new" p1 w3]
    by (simp add: occurrences_emit) (simp add: emit_def)
  show "callApiWithRetry invokeApi p w
        = (api w (occurrences (\<lambda>e. e = ApiCall) (trace w) + 1), p1\<lparr>p_credentials := Some new\<rparr>, emit ApiCall w3)"
    using a r by (simp add: callApiWithRetry_def invokeApi_def Let_def)
  show "occurrences (\<lambda>e. e = ApiCall) (trace (emit ApiCall w3)) = occurrences (\<lambda>e. e = ApiCall) (trace w) + 2"
    using r by (simp add: occurrences_emit)
next
  assume a: "api w (occurrences (\<lambda>e. e = ApiCall) (trace w)) = Inl e
        \<and> err_status e = Some 401 \<and> p_credentials p = Some creds
        \<and> refreshAccessToken p creds (emit (ConsoleError (err_message e)) (emit ApiCall w)) = (Inl e2, p1, w3)"
  show "callApiWithRetry invokeApi p w = (Inl e2, p1, w3)"
    using a by (simp add: callApiWithRetry_def invokeApi_def Let_def)
  show "occurrences (\<lambda>e. e = ApiCall) (trace w3) = occurrences (\<lambda>e. e = ApiCall) (trace w) + 1"
    using a refreshAccessToken_no_ApiCall[of p creds "emit (ConsoleError (err_message e)) (emit ApiCall w)" "Inl e2" p1 w3]
    by (simp add: occurrences_emit)
qed

section \<open>The record built by a refresh\<close>

lemma exchangeToken_result:
  "fst (exchangeToken params p creds w) = Inr new \<longleftrightarrow>
     (\<exists>td. tokenResponse w = Some td \<and> new = newCredentials creds td (now w + elapse w (length (trace w))))"
  by (auto simp: exchangeToken_def tokenResponse_def Let_def emit_def saveCredentials_not_Inl split: sum.splits prod.splits if_splits)

lemma performTokenRefresh_result:
  "fst (performTokenRefresh p creds w) = Inr new \<longleftrightarrow>
     truthy (refresh_token creds)
     \<and> (kind p = GeminiCli \<longrightarrow> (\<exists>cfg. fst (fetchOAuthConfig p w) = Inr cfg))
     \<and> (\<exists>td. tokenResponse (tokenRequestWorld p w) = Some td
            \<and> new = newCredentials creds td
                      (now (tokenRequestWorld p w) + elapse (tokenRequestWorld p w) (length (trace (tokenRequestWorld p w)))))"
proof (cases "kind p")
  case QwenCode
  then show ?thesis
    using exchangeToken_result[of _ p creds w new]
    by (auto simp: performTokenRefresh_def performTokenRefresh_try_def tokenRequestWorld_def case_prod_beta split: sum.splits)
next
  case GeminiCli
  obtain r p1 w1 where f: "fetchOAuthConfig p w = (r, p1, w1)" by (cases "fetchOAuthConfig p w")
  show ?thesis
    using GeminiCli f exchangeToken_result[of _ p1 creds w1 new]
    by (cases r) (auto simp: performTokenRefresh_def performTokenRefresh_try_def tokenRequestWorld_def case_prod_beta split: sum.splits)
qed

text \<open>
  C4, amended. For a prior record with a refresh token and a successful reply of the
  token endpoint (for gemini-cli.ts, once the client configuration is there), the
  refresh returns a record whose \<open>access_token\<close> is the one of the reply, whose
  \<open>token_type\<close> is the one of the reply, or \<^verbatim>\<open>Bearer\<close> when the reply has none or an empty
  one, whose \<open>refresh_token\<close> is the one of the reply, or the prior one when the reply
  has none or an empty one, and whose \<open>expiry_date\<close> is the clock value at the reply
  plus 1000 times \<open>expires_in\<close>.
\<close>

theorem performTokenRefresh_new_record:
  assumes "truthy (refresh_token creds)"
    and "kind p = QwenCode \<or> (\<exists>cfg. fst (fetchOAuthConfig p w) = Inr cfg)"
    and "tokenResponse (tokenRequestWorld p w) = Some td"
    and "date_now = now (tokenRequestWorld p w) + elapse (tokenRequestWorld p w) (length (trace (tokenRequestWorld p w)))"
  shows "\<exists>new. fst (performTokenRefresh p creds w) = Inr new
     \<and> access_token new = td_access_token td
     \<and> token_type new = (case td_token_type td of None \<Rightarrow> Some ''Bearer''
                           | Some t \<Rightarrow> if t = [] then Some ''Bearer'' else Some t)
     \<and> refresh_token new = (case td_refresh_token td of None \<Rightarrow> refresh_token creds
                           | Some t \<Rightarrow> if t = [] then refresh_token creds else Some t)
     \<and> expiry_date new = (case td_expires_in td of None \<Rightarrow> None | Some s \<Rightarrow> Some (date_now + s * 1000))
     \<and> resource_url new = resource_url creds"
proof -
  have "fst (performTokenRefresh p creds w) = Inr (newCredentials creds td date_now)"
    using assms performTokenRefresh_result[of p creds w "newCredentials creds td date_now"]
    by (cases "kind p") auto
  then show ?thesis
    by (auto simp: newCredentials_def or_default_def or_else_def truthy_def split: option.splits)
qed

section \<open>Loading and caching the credential record\<close>

lemma loadCredentials_result:
  "fst (loadCredentials p w) = Inr creds \<longleftrightarrow>
     (\<exists>credsStr. files w (getCredentialPath (kind p) w (p_oauthPath p)) = Inr credsStr
        \<and> JSON_parse w credsStr = Inr (JsonValue creds)
        \<and> truthy (access_token creds) \<and> truthy (refresh_token creds))"
  by (auto simp: loadCredentials_def loadCredentials_try_def Let_def split: sum.splits parsed.splits if_splits)

lemma loadCredentials_error:
  "fst (loadCredentials p w) = Inl e \<Longrightarrow>
     \<exists>cause. fst (loadCredentials_try p w) = Inl (Error cause None) \<and> e = Error (load_prefix (kind p) @ cause) None"
  by (auto simp: loadCredentials_def loadCredentials_try_def Let_def split: sum.splits parsed.splits if_splits)

lemma loadCredentials_world:
  "snd (loadCredentials p w) = emit (ReadFile (getCredentialPath (kind p) w (p_oauthPath p))) w
   \<or> (\<exists>m. snd (loadCredentials p w) = emit (ConsoleError m) (emit (ReadFile (getCredentialPath (kind p) w (p_oauthPath p))) w))"
  by (cases "loadCredentials_try p w")
     (auto simp: loadCredentials_def loadCredentials_try_def Let_def split: sum.splits parsed.splits if_splits)

lemma loadCredentials_frame: "frame w (snd (loadCredentials p w))"
  using loadCredentials_world[of p w]
  by (auto simp: frame_emit intro: frame_trans[OF frame_emit frame_emit])

lemma loadCredentials_reads:
  "occurrences is_ReadFile (trace (snd (loadCredentials p w))) = occurrences is_ReadFile (trace w) + 1"
  using loadCredentials_world[of p w]
  by (auto simp: occurrences_emit)

lemma loadCredentials_occ:
  "quiet P \<Longrightarrow> (\<forall>f. \<not> P (ReadFile f)) \<Longrightarrow>
     occurrences P (trace (snd (loadCredentials p w))) = occurrences P (trace w)"
  using loadCredentials_world[of p w]
  by (auto simp: occurrences_emit quiet_def)

lemma refreshIfExpired_frame: "frame w (snd (snd (refreshIfExpired creds p w)))"
  using refreshAccessToken_frame[of w p creds]
  by (cases "refreshAccessToken p creds w") (auto simp: refreshIfExpired_def frame_refl split: sum.splits)

lemma refreshIfExpired_occ:
  "quiet P \<Longrightarrow> \<not> P ConfigRequest \<Longrightarrow> (\<forall>ps. \<not> P (TokenRequest ps)) \<Longrightarrow>
     occurrences P (trace (snd (snd (refreshIfExpired creds p w)))) = occurrences P (trace w)"
  using refreshAccessToken_occ[of P p creds w]
  by (cases "refreshAccessToken p creds w") (auto simp: refreshIfExpired_def split: sum.splits)

lemma refreshIfExpired_caches:
  "p_credentials p = Some creds \<Longrightarrow> refreshIfExpired creds p w = (Inr c, p1, w1) \<Longrightarrow> p_credentials p1 = Some c"
  by (cases "refreshAccessToken p creds w") (auto simp: refreshIfExpired_def split: sum.splits if_splits)

lemma quiet_ReadFile: "quiet is_ReadFile"
  by (simp add: quiet_def)

lemma loadAndRefresh_caches:
  "fst (loadAndRefresh s env p w) = Inr c \<Longrightarrow> p_credentials (fst (snd (loadAndRefresh s env p w))) = Some c"
  apply (simp add: loadAndRefresh_def Let_def split: option.splits)
   apply (cases "loadCredentials (initializeOAuthPath s env p w) w")
   apply (auto split: sum.splits)[1]
   apply (metis (no_types, lifting) refreshIfExpired_caches provider.select_convs(2) provider.surjective provider.update_convs(2) prod.collapse)
  apply (metis initializeOAuthPath_credentials refreshIfExpired_caches prod.collapse)
  done

lemma loadAndRefresh_reads:
  "occurrences is_ReadFile (trace (snd (snd (loadAndRefresh s env p w))))
     = occurrences is_ReadFile (trace w) + (if p_credentials p = None then 1 else 0)"
  using refreshIfExpired_occ[OF quiet_ReadFile] loadCredentials_reads[of "initializeOAuthPath s env p w" w]
  by (cases "loadCredentials (initializeOAuthPath s env p w) w")
     (auto simp: loadAndRefresh_def Let_def split: option.splits sum.splits)

lemma ensureClient_world: "snd (snd (ensureClient s env p w)) = snd (snd (loadAndRefresh s env p w))"
  by (cases "loadAndRefresh s env p w") (auto simp: ensureClient_def Let_def split: sum.splits)

lemma ensureAuthenticated_world: "snd (snd (ensureAuthenticated s env p w)) = snd (snd (loadAndRefresh s env p w))"
  by (cases "loadAndRefresh s env p w") (auto simp: ensureAuthenticated_def split: sum.splits)

lemma ensureClient_credentials:
  "p_credentials (fst (snd (ensureClient s env p w))) = p_credentials (fst (snd (loadAndRefresh s env p w)))"
  by (cases "loadAndRefresh s env p w") (auto simp: ensureClient_def Let_def split: sum.splits)

lemma ensureAuthenticated_credentials:
  "p_credentials (fst (snd (ensureAuthenticated s env p w))) = p_credentials (fst (snd (loadAndRefresh s env p w)))"
  by (cases "loadAndRefresh s env p w") (auto simp: ensureAuthenticated_def split: sum.splits)

lemma ensureClient_Inr:
  "fst (ensureClient s env p w) = Inr c \<Longrightarrow> \<exists>creds. fst (loadAndRefresh s env p w) = Inr creds \<and> apiKey c = access_token creds"
  by (cases "loadAndRefresh s env p w") (auto simp: ensureClient_def Let_def split: sum.splits option.splits)

lemma ensureAuthenticated_Inr:
  "fst (ensureAuthenticated s env p w) = Inr token \<Longrightarrow> \<exists>creds. fst (loadAndRefresh s env p w) = Inr creds \<and> token = access_token creds"
  by (cases "loadAndRefresh s env p w") (auto simp: ensureAuthenticated_def split: sum.splits)

text \<open>
  C6, amended. \<^verbatim>\<open>loadCredentials\<close> succeeds exactly when the file can be read, parses,
  and has a non-empty \<open>access_token\<close> and a non-empty \<open>refresh_token\<close>; otherwise it
  fails with an error whose message is the fixed prefix followed by the message of
  the cause. A successful \<^verbatim>\<open>ensureClient\<close> or \<^verbatim>\<open>ensureAuthenticated\<close> leaves the record in
  the cache, and a call reads the file once when the cache is empty and not at all
  when a record is cached.
\<close>

theorem loadCredentials_fails_or_caches:
  "(fst (loadCredentials p w) = Inr creds \<longleftrightarrow>
      (\<exists>credsStr. files w (getCredentialPath (kind p) w (p_oauthPath p)) = Inr credsStr
         \<and> JSON_parse w credsStr = Inr (JsonValue creds)
         \<and> truthy (access_token creds) \<and> truthy (refresh_token creds)))
   \<and> (\<forall>e. fst (loadCredentials p w) = Inl e \<longrightarrow>
         (\<exists>cause. fst (loadCredentials_try p w) = Inl (Error cause None)
            \<and> e = Error (load_prefix (kind p) @ cause) None))
   \<and> (\<forall>c. fst (ensureClient s env p w) = Inr c \<longrightarrow>
         (\<exists>cached. p_credentials (fst (snd (ensureClient s env p w))) = Some cached \<and> apiKey c = access_token cached))
   \<and> (\<forall>token. fst (ensureAuthenticated s env p w) = Inr token \<longrightarrow>
         (\<exists>cached. p_credentials (fst (snd (ensureAuthenticated s env p w))) = Some cached \<and> token = access_token cached))
   \<and> occurrences is_ReadFile (trace (snd (snd (ensureClient s env p w))))
        = occurrences is_ReadFile (trace w) + (if p_credentials p = None then 1 else 0)
   \<and> occurrences is_ReadFile (trace (snd (snd (ensureAuthenticated s env p w))))
        = occurrences is_ReadFile (trace w) + (if p_credentials p = None then 1 else 0)"
proof (intro conjI allI impI)
  show "fst (loadCredentials p w) = Inr creds \<longleftrightarrow>
      (\<exists>credsStr. files w (getCredentialPath (kind p) w (p_oauthPath p)) = Inr credsStr
         \<and> JSON_parse w credsStr = Inr (JsonValue creds)
         \<and> truthy (access_token creds) \<and> truthy (refresh_token creds))"
    by (rule loadCredentials_result)
next
  fix e assume "fst (loadCredentials p w) = Inl e"
  then show "\<exists>cause. fst (loadCredentials_try p w) = Inl (Error cause None)
            \<and> e = Error (load_prefix (kind p) @ cause) None"
    by (rule loadCredentials_error)
next
  fix c assume "fst (ensureClient s env p w) = Inr c"
  then obtain creds where "fst (loadAndRefresh s env p w) = Inr creds" and "apiKey c = access_token creds"
    using ensureClient_Inr by blast
  then show "\<exists>cached. p_credentials (fst (snd (ensureClient s env p w))) = Some cached \<and> apiKey c = access_token cached"
    using loadAndRefresh_caches[of s env p w creds] by (simp add: ensureClient_credentials)
next
  fix token assume "fst (ensureAuthenticated s env p w) = Inr token"
  then obtain creds where "fst (loadAndRefresh s env p w) = Inr creds" and "token = access_token creds"
    using ensureAuthenticated_Inr by blast
  then show "\<exists>cached. p_credentials (fst (snd (ensureAuthenticated s env p w))) = Some cached \<and> token = access_token cached"
    using loadAndRefresh_caches[of s env p w creds] by (simp add: ensureAuthenticated_credentials)
next
  show "occurrences is_ReadFile (trace (snd (snd (ensureClient s env p w))))
        = occurrences is_ReadFile (trace w) + (if p_credentials p = None then 1 else 0)"
    by (simp only: ensureClient_world loadAndRefresh_reads)
next
  show "occurrences is_ReadFile (trace (snd (snd (ensureAuthenticated s env p w))))
        = occurrences is_ReadFile (trace w) + (if p_credentials p = None then 1 else 0)"
    by (simp only: ensureAuthenticated_world loadAndRefresh_reads)
qed

section \<open>Properties of the model discovery\<close>

lemma initializeOAuthPath_twice:
  "initializeOAuthPath s env (initializeOAuthPath s env p w) w = initializeOAuthPath s env p w"
  by (simp add: initializeOAuthPath_def)

lemma loadAndRefresh_initialized:
  "loadAndRefresh s env (initializeOAuthPath s env p w) w = loadAndRefresh s env p w"
  by (simp add: loadAndRefresh_def initializeOAuthPath_twice)

lemma getDynamicModels_never_throws: "\<exists>ms. fst (getDynamicModels s env p w) = Inr ms"
  by (cases "getDynamicModels_try s env p w")
     (auto simp: getDynamicModels_def split: sum.splits option.splits)

lemma fetchModels_auth_failure:
  assumes "fst (loadAndRefresh s env p w) = Inl e"
  shows "\<exists>e'. fst (fetchModels s env p w) = Inl e'"
  using assms
  by (cases "loadAndRefresh s env p w"; cases "kind p")
     (auto simp: fetchModels_def getValidAccessToken_def ensureClient_def ensureAuthenticated_def)

lemma getDynamicModels_auth_failure:
  assumes "fst (loadAndRefresh s env p w) = Inl e"
  shows "fst (getDynamicModels s env p w) = Inr []"
proof -
  have "fst (loadAndRefresh s env (initializeOAuthPath s env p w) w) = Inl e"
    using assms by (simp add: loadAndRefresh_initialized)
  from fetchModels_auth_failure[OF this]
  obtain e' where "fst (fetchModels s env (initializeOAuthPath s env p w) w) = Inl e'" by blast
  then show ?thesis
    by (cases "fetchModels s env (initializeOAuthPath s env p w) w")
       (auto simp: getDynamicModels_def getDynamicModels_try_def Let_def)
qed

lemma getDynamicModels_gemini:
  assumes "kind p = GeminiCli" shows "fst (getDynamicModels s env p w) = Inr []"
proof -
  have k: "kind (initializeOAuthPath s env p w) = GeminiCli"
    using assms by (simp add: initializeOAuthPath_def)
  show ?thesis
    using k
    by (cases "ensureAuthenticated s env (initializeOAuthPath s env p w) w")
       (auto simp: getDynamicModels_def getDynamicModels_try_def Let_def fetchModels_def split: sum.splits)
qed

lemma loadAndRefresh_frame: "frame w (snd (snd (loadAndRefresh s env p w)))"
proof (cases "p_credentials (initializeOAuthPath s env p w)")
  case None
  obtain r w1 where l: "loadCredentials (initializeOAuthPath s env p w) w = (r, w1)"
    by (cases "loadCredentials (initializeOAuthPath s env p w) w")
  have f1: "frame w w1" using loadCredentials_frame[of w "initializeOAuthPath s env p w"] l by simp
  show ?thesis
  proof (cases r)
    case (Inl e)
    then show ?thesis using None l f1 by (simp add: loadAndRefresh_def Let_def)
  next
    case (Inr creds)
    then show ?thesis
      using None l frame_trans[OF f1 refreshIfExpired_frame]
      by (simp add: loadAndRefresh_def Let_def)
  qed
next
  case (Some creds)
  then show ?thesis
    using refreshIfExpired_frame by (simp add: loadAndRefresh_def Let_def)
qed

lemma frame_models_endpoint: "frame w w' \<Longrightarrow> models_endpoint w' = models_endpoint w"
  unfolding frame_def by (metis world.select_convs(17) world.surjective world.update_convs(1,3,10))

lemma fetchModels_network_failure:
  assumes "\<forall>k. case models_endpoint w k of Inl msg \<Rightarrow> True | Inr resp \<Rightarrow> \<not> ok resp"
  shows "fst (fetchModels s env p w) = Inr (Some ms) \<longrightarrow> ms = []"
proof (cases "kind p")
  case GeminiCli
  then show ?thesis
    by (cases "ensureAuthenticated s env p w") (auto simp: fetchModels_def split: sum.splits)
next
  case QwenCode
  obtain r p1 w1 where g: "getValidAccessToken s env p w = (r, p1, w1)"
    by (cases "getValidAccessToken s env p w")
  have "w1 = snd (snd (ensureClient s env p w))"
    using g by (cases "ensureClient s env p w") (auto simp: getValidAccessToken_def split: sum.splits option.splits)
  then have "frame w w1"
    using loadAndRefresh_frame[of w s env p] by (simp add: ensureClient_world)
  then have "models_endpoint w1 = models_endpoint w" by (rule frame_models_endpoint)
  then have "\<forall>k. case models_endpoint w1 k of Inl msg \<Rightarrow> True | Inr resp \<Rightarrow> \<not> ok resp"
    using assms by simp
  then have "case models_endpoint w1 (occurrences is_ModelsRequest (trace w1)) of Inl msg \<Rightarrow> True | Inr resp \<Rightarrow> \<not> ok resp"
    by blast
  then show ?thesis
    using QwenCode g
    by (auto simp: fetchModels_def Let_def split: sum.splits option.splits)
qed

lemma getDynamicModels_network_failure:
  assumes "\<forall>k. case models_endpoint w k of Inl msg \<Rightarrow> True | Inr resp \<Rightarrow> \<not> ok resp"
  shows "fst (getDynamicModels s env p w) = Inr []"
proof -
  have "\<And>ms. fst (fetchModels s env (initializeOAuthPath s env p w) w) = Inr (Some ms) \<longrightarrow> ms = []"
    using fetchModels_network_failure[OF assms] by blast
  then show ?thesis
    by (cases "fetchModels s env (initializeOAuthPath s env p w) w")
       (auto simp: getDynamicModels_def getDynamicModels_try_def Let_def split: sum.splits option.splits)
qed

text \<open>
  C9. \<^verbatim>\<open>getDynamicModels\<close> always returns a list. The list is empty when the
  orchestrator fails (a missing credential file, a failed refresh), when every request
  to the models endpoint fails or is answered with a non-success status, in a browser,
  and always for gemini-cli.ts.
\<close>

theorem getDynamicModels_never_fails:
  "(\<exists>ms. fst (getDynamicModels s env p w) = Inr ms)
   \<and> ((\<exists>e. fst (ensureClient s env p w) = Inl e) \<longrightarrow> fst (getDynamicModels s env p w) = Inr [])
   \<and> ((\<exists>e. fst (ensureAuthenticated s env p w) = Inl e) \<longrightarrow> fst (getDynamicModels s env p w) = Inr [])
   \<and> ((\<forall>k. case models_endpoint w k of Inl msg \<Rightarrow> True | Inr resp \<Rightarrow> \<not> ok resp) \<longrightarrow>
         fst (getDynamicModels s env p w) = Inr [])
   \<and> (kind p = GeminiCli \<or> window_defined w \<longrightarrow> fst (getDynamicModels s env p w) = Inr [])"
proof (intro conjI impI)
  show "\<exists>ms. fst (getDynamicModels s env p w) = Inr ms" by (rule getDynamicModels_never_throws)
next
  assume "\<exists>e. fst (ensureClient s env p w) = Inl e"
  then obtain e where "fst (loadAndRefresh s env p w) = Inl e"
    by (cases "loadAndRefresh s env p w") (auto simp: ensureClient_def Let_def split: sum.splits)
  then show "fst (getDynamicModels s env p w) = Inr []" by (rule getDynamicModels_auth_failure)
next
  assume "\<exists>e. fst (ensureAuthenticated s env p w) = Inl e"
  then obtain e where "fst (loadAndRefresh s env p w) = Inl e"
    by (cases "loadAndRefresh s env p w") (auto simp: ensureAuthenticated_def split: sum.splits)
  then show "fst (getDynamicModels s env p w) = Inr []" by (rule getDynamicModels_auth_failure)
next
  assume "\<forall>k. case models_endpoint w k of Inl msg \<Rightarrow> True | Inr resp \<Rightarrow> \<not> ok resp"
  then show "fst (getDynamicModels s env p w) = Inr []" by (rule getDynamicModels_network_failure)
next
  assume "kind p = GeminiCli \<or> window_defined w"
  then show "fst (getDynamicModels s env p w) = Inr []"
    using getDynamicModels_gemini[of p s env w] by (auto simp: getDynamicModels_def)
qed

section \<open>Properties of the model handle\<close>

text \<open>
  C7, amended. An invocation of \<^verbatim>\<open>doGenerate\<close> or \<^verbatim>\<open>doStream\<close> on a handle that has no
  client promise yet runs the orchestrator first. When the orchestrator succeeds the
  handle keeps the client and the call is issued through the retry wrapper; when it
  fails the invocation fails and no call is issued. An invocation on a handle that
  holds a client issues the call through the retry wrapper without running the
  orchestrator.
\<close>

theorem doGenerate_authenticates_once:
  "(clientPromise h = None \<and> \<not> isInitializing h \<and> authenticate h p w = (Inr c, p1, w1) \<longrightarrow>
      doGenerate h p w =
        (case callApiWithRetry invokeApi p1 w1 of
           (r, p2, w2) \<Rightarrow> (r, h\<lparr>clientPromise := Some (Inr c), isInitializing := False\<rparr>, p2, w2)))
   \<and> (clientPromise h = None \<and> \<not> isInitializing h \<and> authenticate h p w = (Inl e, p1, w1) \<longrightarrow>
      (\<exists>e' h' w'. doGenerate h p w = (Inl e', h', p1, w')
          \<and> trace w' = trace w1 @ (if kind p = QwenCode then [ConsoleError (err_message e)] else [])))
   \<and> (clientPromise h = Some (Inr c) \<longrightarrow>
      doGenerate h p w = (case callApiWithRetry invokeApi p w of (r, p2, w2) \<Rightarrow> (r, h, p2, w2)))"
proof (intro conjI impI)
  assume a: "clientPromise h = None \<and> \<not> isInitializing h \<and> authenticate h p w = (Inr c, p1, w1)"
  show "doGenerate h p w =
        (case callApiWithRetry invokeApi p1 w1 of
           (r, p2, w2) \<Rightarrow> (r, h\<lparr>clientPromise := Some (Inr c), isInitializing := False\<rparr>, p2, w2))"
  proof (cases "kind p")
    case QwenCode
    then show ?thesis using a
      by (simp add: doGenerate_def getAuthenticatedClient_def authenticate_def case_prod_beta)
  next
    case GeminiCli
    then show ?thesis using a
      by (cases "ensureAuthenticated (h_settings h) (Some (h_envRecord h)) p w")
         (auto simp: doGenerate_def getAuthenticatedClient_def authenticate_def Let_def case_prod_beta split: sum.splits)
  qed
next
  assume a: "clientPromise h = None \<and> \<not> isInitializing h \<and> authenticate h p w = (Inl e, p1, w1)"
  show "\<exists>e' h' w'. doGenerate h p w = (Inl e', h', p1, w')
          \<and> trace w' = trace w1 @ (if kind p = QwenCode then [ConsoleError (err_message e)] else [])"
  proof (cases "kind p")
    case QwenCode
    then show ?thesis using a
      by (simp add: doGenerate_def getAuthenticatedClient_def authenticate_def emit_def)
  next
    case GeminiCli
    then show ?thesis using a
      by (cases "ensureAuthenticated (h_settings h) (Some (h_envRecord h)) p w")
         (auto simp: doGenerate_def getAuthenticatedClient_def authenticate_def Let_def split: sum.splits)
  qed
next
  assume "clientPromise h = Some (Inr c)"
  then show "doGenerate h p w = (case callApiWithRetry invokeApi p w of (r, p2, w2) \<Rightarrow> (r, h, p2, w2))"
    by (simp add: doGenerate_def getAuthenticatedClient_def case_prod_beta)
qed

section \<open>Single flight of the refresh\<close>

lemma step_Resume_cases:
  "step (Resume t) cfg = cfg
   \<or> (\<exists>pr own. c_tasks cfg t = Some (Awaiting pr own) \<and> promise_id pr \<in> c_settled cfg
         \<and> step (Resume t) cfg =
             cfg\<lparr>c_tasks := (c_tasks cfg)(t \<mapsto> Returned (outcome pr)),
                 c_provider := (if own then (c_provider cfg)\<lparr>p_refreshPromise := None\<rparr> else c_provider cfg)\<rparr>)"
  by (auto split: option.splits task.splits)

lemma shares_update:
  assumes "shares pr t0 cfg" and "c_tasks cfg' = (c_tasks cfg)(t \<mapsto> x)"
    and "x = Awaiting pr (t = t0) \<or> x = Returned (outcome pr)"
  shows "shares pr t0 cfg'"
  unfolding shares_def
proof
  fix u
  have "c_tasks cfg u = None \<or> c_tasks cfg u = Some (Awaiting pr (u = t0)) \<or> c_tasks cfg u = Some (Returned (outcome pr))"
    using assms(1) unfolding shares_def by blast
  then show "c_tasks cfg' u = None \<or> c_tasks cfg' u = Some (Awaiting pr (u = t0)) \<or> c_tasks cfg' u = Some (Returned (outcome pr))"
    using assms(2,3) by (cases "u = t") auto
qed

lemma shares_same: "shares pr t0 cfg \<Longrightarrow> c_tasks cfg' = c_tasks cfg \<Longrightarrow> shares pr t0 cfg'"
  by (simp add: shares_def)

lemma shares_task:
  "shares pr t0 cfg \<Longrightarrow> c_tasks cfg t = Some (Awaiting pr' own) \<Longrightarrow> pr' = pr \<and> own = (t = t0)"
proof -
  assume a: "shares pr t0 cfg" and b: "c_tasks cfg t = Some (Awaiting pr' own)"
  have "c_tasks cfg t = None \<or> c_tasks cfg t = Some (Awaiting pr (t = t0)) \<or> c_tasks cfg t = Some (Returned (outcome pr))"
    using a unfolding shares_def by blast
  then show ?thesis using b by auto
qed

lemma step_in_flight:
  assumes "in_flight pr t0 p1 w1 cfg" and "a \<noteq> Resume t0"
  shows "in_flight pr t0 p1 w1 (step a cfg)"
proof (cases a)
  case (Call t creds)
  have s: "shares pr t0 cfg" using assms(1) by (simp add: in_flight_def)
  show ?thesis
  proof (cases "c_tasks cfg t")
    case None
    then have "t \<noteq> t0" using assms(1) by (auto simp: in_flight_def)
    then have "shares pr t0 (cfg\<lparr>c_tasks := (c_tasks cfg)(t \<mapsto> Awaiting pr False)\<rparr>)"
      by (intro shares_update[OF s, where t = t and x = "Awaiting pr False"]) simp_all
    then show ?thesis using assms(1) Call None \<open>t \<noteq> t0\<close>
      by (simp add: in_flight_def)
  next
    case (Some x)
    then show ?thesis using assms(1) Call by simp
  qed
next
  case (Settle k)
  then show ?thesis using assms(1) shares_same[of pr t0 cfg "step a cfg"]
    by (simp add: in_flight_def)
next
  case (Resume t)
  then have ne: "t \<noteq> t0" using assms by simp
  have s: "shares pr t0 cfg" using assms(1) by (simp add: in_flight_def)
  from step_Resume_cases[of t cfg] show ?thesis
  proof
    assume "step (Resume t) cfg = cfg"
    then show ?thesis using assms(1) Resume by simp
  next
    assume "\<exists>pr' own. c_tasks cfg t = Some (Awaiting pr' own) \<and> promise_id pr' \<in> c_settled cfg
         \<and> step (Resume t) cfg =
             cfg\<lparr>c_tasks := (c_tasks cfg)(t \<mapsto> Returned (outcome pr')),
                 c_provider := (if own then (c_provider cfg)\<lparr>p_refreshPromise := None\<rparr> else c_provider cfg)\<rparr>"
    then obtain pr' own where t: "c_tasks cfg t = Some (Awaiting pr' own)"
      and e: "step (Resume t) cfg =
             cfg\<lparr>c_tasks := (c_tasks cfg)(t \<mapsto> Returned (outcome pr')),
                 c_provider := (if own then (c_provider cfg)\<lparr>p_refreshPromise := None\<rparr> else c_provider cfg)\<rparr>"
      by blast
    have po: "pr' = pr \<and> \<not> own" using shares_task[OF s t] ne by simp
    have e': "c_tasks (step (Resume t) cfg) = (c_tasks cfg)(t \<mapsto> Returned (outcome pr))"
      by (subst e) (simp add: po)
    have "shares pr t0 (step (Resume t) cfg)"
      by (rule shares_update[OF s e']) simp
    then show ?thesis using assms(1) Resume e po ne
      by (simp add: in_flight_def)
  qed
qed

lemma run_in_flight:
  "in_flight pr t0 p1 w1 cfg \<Longrightarrow> Resume t0 \<notin> set acts \<Longrightarrow> in_flight pr t0 p1 w1 (run acts cfg)"
proof (induction acts arbitrary: cfg)
  case Nil
  then show ?case by simp
next
  case (Cons a acts)
  then show ?case using step_in_flight[of pr t0 p1 w1 cfg a] by auto
qed

lemma in_flight_draining: "in_flight pr t0 p1 w1 cfg \<Longrightarrow> draining pr t0 w1 cfg"
  by (simp add: in_flight_def draining_def)

lemma step_draining:
  assumes "draining pr t0 w1 cfg" and "\<not> is_Call a"
  shows "draining pr t0 w1 (step a cfg)"
proof (cases a)
  case (Call t creds)
  then show ?thesis using assms by simp
next
  case (Settle k)
  then show ?thesis using assms(1) shares_same[of pr t0 cfg "step a cfg"]
    by (simp add: draining_def)
next
  case (Resume t)
  have s: "shares pr t0 cfg" using assms(1) by (simp add: draining_def)
  from step_Resume_cases[of t cfg] show ?thesis
  proof
    assume "step (Resume t) cfg = cfg"
    then show ?thesis using assms(1) Resume by simp
  next
    assume "\<exists>pr' own. c_tasks cfg t = Some (Awaiting pr' own) \<and> promise_id pr' \<in> c_settled cfg
         \<and> step (Resume t) cfg =
             cfg\<lparr>c_tasks := (c_tasks cfg)(t \<mapsto> Returned (outcome pr')),
                 c_provider := (if own then (c_provider cfg)\<lparr>p_refreshPromise := None\<rparr> else c_provider cfg)\<rparr>"
    then obtain pr' own where t: "c_tasks cfg t = Some (Awaiting pr' own)"
      and e: "step (Resume t) cfg =
             cfg\<lparr>c_tasks := (c_tasks cfg)(t \<mapsto> Returned (outcome pr')),
                 c_provider := (if own then (c_provider cfg)\<lparr>p_refreshPromise := None\<rparr> else c_provider cfg)\<rparr>"
      by blast
    have po: "pr' = pr" using shares_task[OF s t] by simp
    have e': "c_tasks (step (Resume t) cfg) = (c_tasks cfg)(t \<mapsto> Returned (outcome pr))"
      by (subst e) (simp add: po)
    have "shares pr t0 (step (Resume t) cfg)"
      by (rule shares_update[OF s e']) simp
    then show ?thesis using assms(1) Resume e
      by (simp add: draining_def)
  qed
qed

lemma run_draining:
  "draining pr t0 w1 cfg \<Longrightarrow> \<forall>a\<in>set acts. \<not> is_Call a \<Longrightarrow> draining pr t0 w1 (run acts cfg)"
proof (induction acts arbitrary: cfg)
  case Nil
  then show ?case by simp
next
  case (Cons a acts)
  then show ?case using step_draining[of pr t0 w1 cfg a] by auto
qed

lemma run_append: "run (xs @ ys) cfg = run ys (run xs cfg)"
  by (induction xs arbitrary: cfg) auto

lemma first_call_in_flight:
  assumes "p_refreshPromise p = None" and "performTokenRefresh p c0 w = (r, p1, w1)"
  shows "in_flight (Promise 0 r) t0 p1 w1 (step (Call t0 c0) (init_config p w))"
  using assms by (simp add: init_config_def in_flight_def shares_def)

lemma owner_holds_slot_init: "owner_holds_slot (init_config p w)"
  by (simp add: owner_holds_slot_def init_config_def)

lemma step_owner_holds_slot:
  assumes "owner_holds_slot cfg"
  shows "owner_holds_slot (step a cfg)"
proof (cases a)
  case (Call t creds)
  show ?thesis
  proof (cases "c_tasks cfg t")
    case (Some x)
    then show ?thesis using assms Call by simp
  next
    case None
    show ?thesis
    proof (cases "p_refreshPromise (c_provider cfg)")
      case (Some pr)
      then show ?thesis using assms Call None
        by (auto simp: owner_holds_slot_def)
    next
      case slot: None
      then have no: "\<And>u pr. c_tasks cfg u \<noteq> Some (Awaiting pr True)"
        using assms unfolding owner_holds_slot_def by (metis option.distinct(1))
      obtain r p1 w1 where f: "performTokenRefresh (c_provider cfg) creds (c_world cfg) = (r, p1, w1)"
        by (cases "performTokenRefresh (c_provider cfg) creds (c_world cfg)")
      show ?thesis using Call None slot f no
        by (auto simp: owner_holds_slot_def)
    qed
  qed
next
  case (Settle k)
  then show ?thesis using assms by (auto simp: owner_holds_slot_def)
next
  case (Resume t)
  from step_Resume_cases[of t cfg] show ?thesis
  proof
    assume "step (Resume t) cfg = cfg"
    then show ?thesis using assms Resume by simp
  next
    assume "\<exists>pr' own. c_tasks cfg t = Some (Awaiting pr' own) \<and> promise_id pr' \<in> c_settled cfg
         \<and> step (Resume t) cfg =
             cfg\<lparr>c_tasks := (c_tasks cfg)(t \<mapsto> Returned (outcome pr')),
                 c_provider := (if own then (c_provider cfg)\<lparr>p_refreshPromise := None\<rparr> else c_provider cfg)\<rparr>"
    then obtain pr' own where t: "c_tasks cfg t = Some (Awaiting pr' own)"
      and e: "step (Resume t) cfg =
             cfg\<lparr>c_tasks := (c_tasks cfg)(t \<mapsto> Returned (outcome pr')),
                 c_provider := (if own then (c_provider cfg)\<lparr>p_refreshPromise := None\<rparr> else c_provider cfg)\<rparr>"
      by blast
    show ?thesis
    proof (cases own)
      case True
      have uniq: "\<forall>t u pr pr'. c_tasks cfg t = Some (Awaiting pr True) \<and> c_tasks cfg u = Some (Awaiting pr' True) \<longrightarrow> t = u"
        using assms unfolding owner_holds_slot_def by blast
      have "\<And>u pr. u \<noteq> t \<Longrightarrow> c_tasks cfg u \<noteq> Some (Awaiting pr True)"
      proof
        fix u pr assume "u \<noteq> t" and "c_tasks cfg u = Some (Awaiting pr True)"
        moreover have "c_tasks cfg t = Some (Awaiting pr' True)" using t True by simp
        ultimately show False using uniq by blast
      qed
      then show ?thesis unfolding Resume e owner_holds_slot_def using True
        by (auto split: if_splits)
    next
      case False
      then show ?thesis unfolding Resume e using assms
        by (auto simp: owner_holds_slot_def split: if_splits)
    qed
  qed
qed

lemma run_owner_holds_slot: "owner_holds_slot cfg \<Longrightarrow> owner_holds_slot (run acts cfg)"
proof (induction acts arbitrary: cfg)
  case Nil
  then show ?case by simp
next
  case (Cons a acts)
  have "owner_holds_slot (step a cfg)" using Cons.prems by (rule step_owner_holds_slot)
  then show ?case using Cons.IH by simp
qed

lemma slot_cleared_after_settle:
  assumes "owner_holds_slot cfg" and "p_refreshPromise (c_provider cfg) = Some pr"
    and "p_refreshPromise (c_provider (step a cfg)) \<noteq> Some pr"
  shows "promise_id pr \<in> c_settled cfg \<and> p_refreshPromise (c_provider (step a cfg)) = None"
proof (cases a)
  case (Call t creds)
  then have "p_refreshPromise (c_provider (step a cfg)) = Some pr"
    using assms(2) by (cases "c_tasks cfg t") simp_all
  then show ?thesis using assms(3) by simp
next
  case (Settle k)
  then show ?thesis using assms by (auto split: if_splits)
next
  case (Resume t)
  from step_Resume_cases[of t cfg] show ?thesis
  proof
    assume "step (Resume t) cfg = cfg"
    then show ?thesis using assms Resume by simp
  next
    assume "\<exists>pr' own. c_tasks cfg t = Some (Awaiting pr' own) \<and> promise_id pr' \<in> c_settled cfg
         \<and> step (Resume t) cfg =
             cfg\<lparr>c_tasks := (c_tasks cfg)(t \<mapsto> Returned (outcome pr')),
                 c_provider := (if own then (c_provider cfg)\<lparr>p_refreshPromise := None\<rparr> else c_provider cfg)\<rparr>"
    then obtain pr' own where t: "c_tasks cfg t = Some (Awaiting pr' own)"
      and st: "promise_id pr' \<in> c_settled cfg"
      and e: "step (Resume t) cfg =
             cfg\<lparr>c_tasks := (c_tasks cfg)(t \<mapsto> Returned (outcome pr')),
                 c_provider := (if own then (c_provider cfg)\<lparr>p_refreshPromise := None\<rparr> else c_provider cfg)\<rparr>"
      by blast
    have own: own using assms(2,3) unfolding Resume e by (auto split: if_splits)
    then have "pr' = pr" using assms(1,2) t unfolding owner_holds_slot_def by auto
    then show ?thesis using st own unfolding Resume e by simp
  qed
qed

lemma step_Call_joins:
  "c_tasks cfg t = None \<Longrightarrow> p_refreshPromise (c_provider cfg) = Some pr \<Longrightarrow>
     step (Call t creds) cfg = cfg\<lparr>c_tasks := (c_tasks cfg)(t \<mapsto> Awaiting pr False)\<rparr>"
  by simp

lemma quiet_TokenRequest: "quiet is_TokenRequest"
  by (simp add: quiet_def)

lemma performTokenRefresh_success_requests:
  assumes "fst (performTokenRefresh p creds w) = Inr new"
  shows "occurrences is_TokenRequest (trace (snd (snd (performTokenRefresh p creds w))))
           = occurrences is_TokenRequest (trace w) + 1"
proof (cases "kind p")
  case QwenCode
  then show ?thesis using assms
    by (auto simp: performTokenRefresh_def performTokenRefresh_try_def case_prod_beta
          exchangeToken_occ[OF quiet_TokenRequest] split: sum.splits if_splits)
next
  case GeminiCli
  then show ?thesis using assms
    by (auto simp: performTokenRefresh_def performTokenRefresh_try_def case_prod_beta
          exchangeToken_occ[OF quiet_TokenRequest] fetchOAuthConfig_occ[OF quiet_TokenRequest]
          split: sum.splits if_splits)
qed

lemma step_task_kept: "c_tasks cfg t \<noteq> None \<Longrightarrow> c_tasks (step a cfg) t \<noteq> None"
proof (cases a)
  case (Call u creds)
  then show "c_tasks cfg t \<noteq> None \<Longrightarrow> ?thesis"
    by (cases "performTokenRefresh (c_provider cfg) creds (c_world cfg)") (auto split: option.splits)
next
  case (Settle k)
  then show "c_tasks cfg t \<noteq> None \<Longrightarrow> ?thesis" by auto
next
  case (Resume u)
  then show "c_tasks cfg t \<noteq> None \<Longrightarrow> ?thesis"
    using step_Resume_cases[of u cfg] by auto
qed

lemma run_task_kept: "c_tasks cfg t \<noteq> None \<Longrightarrow> c_tasks (run acts cfg) t \<noteq> None"
proof (induction acts arbitrary: cfg)
  case Nil
  then show ?case by simp
next
  case (Cons a acts)
  have "c_tasks (step a cfg) t \<noteq> None" using Cons.prems by (rule step_task_kept)
  then show ?case using Cons.IH by simp
qed

lemma step_Call_task: "c_tasks (step (Call t creds) cfg) t \<noteq> None"
  by (cases "performTokenRefresh (c_provider cfg) creds (c_world cfg)") (auto split: option.splits)

lemma run_called: "Call t creds \<in> set acts \<Longrightarrow> c_tasks (run acts cfg) t \<noteq> None"
proof (induction acts arbitrary: cfg)
  case Nil
  then show ?case by simp
next
  case (Cons a acts)
  show ?case
  proof (cases "a = Call t creds")
    case True
    then show ?thesis using run_task_kept[OF step_Call_task[of t creds cfg], of acts] by simp
  next
    case False
    then show ?thesis using Cons by simp
  qed
qed

lemma step_returned_kept:
  "c_tasks cfg t = Some (Returned r) \<Longrightarrow> c_tasks (step a cfg) t = Some (Returned r)"
proof (cases a)
  case (Call u creds)
  then show "c_tasks cfg t = Some (Returned r) \<Longrightarrow> ?thesis"
    by (cases "performTokenRefresh (c_provider cfg) creds (c_world cfg)") (auto split: option.splits)
next
  case (Settle k)
  then show "c_tasks cfg t = Some (Returned r) \<Longrightarrow> ?thesis" by auto
next
  case (Resume u)
  then show "c_tasks cfg t = Some (Returned r) \<Longrightarrow> ?thesis"
    using step_Resume_cases[of u cfg] by auto
qed

lemma run_returned_kept:
  "c_tasks cfg t = Some (Returned r) \<Longrightarrow> c_tasks (run acts cfg) t = Some (Returned r)"
proof (induction acts arbitrary: cfg)
  case Nil
  then show ?case by simp
next
  case (Cons a acts)
  have "c_tasks (step a cfg) t = Some (Returned r)" using Cons.prems by (rule step_returned_kept)
  then show ?case using Cons.IH by simp
qed

lemma step_settled_kept: "k \<in> c_settled cfg \<Longrightarrow> k \<in> c_settled (step a cfg)"
proof (cases a)
  case (Call u creds)
  then show "k \<in> c_settled cfg \<Longrightarrow> ?thesis"
    by (cases "performTokenRefresh (c_provider cfg) creds (c_world cfg)") (auto split: option.splits)
next
  case (Settle j)
  then show "k \<in> c_settled cfg \<Longrightarrow> ?thesis" by auto
next
  case (Resume u)
  then show "k \<in> c_settled cfg \<Longrightarrow> ?thesis"
    using step_Resume_cases[of u cfg] by auto
qed

lemma run_settled_kept: "k \<in> c_settled cfg \<Longrightarrow> k \<in> c_settled (run acts cfg)"
proof (induction acts arbitrary: cfg)
  case Nil
  then show ?case by simp
next
  case (Cons a acts)
  have "k \<in> c_settled (step a cfg)" using Cons.prems by (rule step_settled_kept)
  then show ?case using Cons.IH by simp
qed

lemma resume_returns:
  assumes "shares pr t0 cfg" and "promise_id pr \<in> c_settled cfg" and "c_tasks cfg t \<noteq> None"
  shows "c_tasks (step (Resume t) cfg) t = Some (Returned (outcome pr))"
proof -
  have "c_tasks cfg t = None \<or> c_tasks cfg t = Some (Awaiting pr (t = t0)) \<or> c_tasks cfg t = Some (Returned (outcome pr))"
    using assms(1) unfolding shares_def by (rule spec)
  then have "c_tasks cfg t = Some (Awaiting pr (t = t0)) \<or> c_tasks cfg t = Some (Returned (outcome pr))"
    using assms(3) by simp
  then show ?thesis using assms(2) by auto
qed

lemma drained_task_returns:
  assumes d: "draining pr t0 w1 cfg" and nc: "\<forall>a\<in>set (xs @ Settle (promise_id pr) # ys @ Resume t # zs). \<not> is_Call a"
    and called: "c_tasks cfg t \<noteq> None"
  shows "c_tasks (run (xs @ Settle (promise_id pr) # ys @ Resume t # zs) cfg) t = Some (Returned (outcome pr))"
proof -
  let ?c1 = "run xs cfg"
  let ?c2 = "step (Settle (promise_id pr)) ?c1"
  let ?c3 = "run ys ?c2"
  let ?c4 = "step (Resume t) ?c3"
  have d1: "draining pr t0 w1 ?c1" using run_draining[OF d] nc by simp
  have d2: "draining pr t0 w1 ?c2" by (rule step_draining[OF d1]) simp
  have "c_created ?c1 = Suc (promise_id pr)" using d1 by (simp add: draining_def)
  then have s2: "promise_id pr \<in> c_settled ?c2" by simp
  have d3: "draining pr t0 w1 ?c3" using run_draining[OF d2] nc by simp
  have s3: "promise_id pr \<in> c_settled ?c3" using run_settled_kept[OF s2] by simp
  have t3: "c_tasks ?c3 t \<noteq> None"
    by (rule run_task_kept[OF step_task_kept[OF run_task_kept[OF called]]])
  have sh3: "shares pr t0 ?c3" using d3 unfolding draining_def by blast
  have "c_tasks ?c4 t = Some (Returned (outcome pr))"
    by (rule resume_returns[OF sh3 s3 t3])
  then have "c_tasks (run zs ?c4) t = Some (Returned (outcome pr))"
    by (rule run_returned_kept)
  then show ?thesis by (simp only: run_append run.simps)
qed

lemma performTokenRefresh_requests:
  "occurrences is_TokenRequest (trace (snd (snd (performTokenRefresh p creds w))))
     = occurrences is_TokenRequest (trace w)
       + (if truthy (refresh_token creds) \<and> (kind p = QwenCode \<or> (\<exists>cfg. fst (fetchOAuthConfig p w) = Inr cfg))
          then 1 else 0)"
proof (cases "kind p")
  case QwenCode
  then show ?thesis
    by (auto simp: performTokenRefresh_def performTokenRefresh_try_def case_prod_beta occurrences_emit
          exchangeToken_occ[OF quiet_TokenRequest] split: sum.splits if_splits)
next
  case GeminiCli
  then show ?thesis
    by (auto simp: performTokenRefresh_def performTokenRefresh_try_def case_prod_beta occurrences_emit
          exchangeToken_occ[OF quiet_TokenRequest] fetchOAuthConfig_occ[OF quiet_TokenRequest]
          split: sum.splits if_splits)
qed

lemma single_flight_run:
  assumes slot: "p_refreshPromise p = None"
    and a1: "Resume t0 \<notin> set acts1"
    and a2: "\<forall>a\<in>set acts2. \<not> is_Call a"
    and f: "performTokenRefresh p c0 w = (r, p1, w1)"
  shows "draining (Promise 0 r) t0 w1 (run (Call t0 c0 # acts1 @ acts2) (init_config p w))"
    and "draining (Promise 0 r) t0 w1 (run (Call t0 c0 # acts1) (init_config p w))"
proof -
  have i1: "in_flight (Promise 0 r) t0 p1 w1 (step (Call t0 c0) (init_config p w))"
    by (rule first_call_in_flight[OF slot f])
  have i2: "in_flight (Promise 0 r) t0 p1 w1 (run acts1 (step (Call t0 c0) (init_config p w)))"
    by (rule run_in_flight[OF i1 a1])
  have d2: "draining (Promise 0 r) t0 w1 (run acts1 (step (Call t0 c0) (init_config p w)))"
    by (rule in_flight_draining[OF i2])
  have d3: "draining (Promise 0 r) t0 w1 (run acts2 (run acts1 (step (Call t0 c0) (init_config p w))))"
    by (rule run_draining[OF d2 a2])
  show "draining (Promise 0 r) t0 w1 (run (Call t0 c0 # acts1 @ acts2) (init_config p w))"
    using d3 by (simp only: run.simps run_append)
  show "draining (Promise 0 r) t0 w1 (run (Call t0 c0 # acts1) (init_config p w))"
    using d2 by (simp only: run.simps)
qed

text \<open>
  C1. (i) A call of \<^verbatim>\<open>refreshAccessToken\<close> that finds a promise in the slot awaits that
  promise and changes neither the world nor the provider, so it issues no request.
  (ii) In every configuration reached from an initial one, a step that takes a promise
  out of the slot leaves the slot null and happens only after that promise has settled.
  (iii) Let a first caller find the slot null, let further callers arrive in any
  interleaving before the first caller resumes, and let any settling and resuming
  follow. Then the world holds the effects of one \<^verbatim>\<open>performTokenRefresh\<close> only: one
  token request when the record has a refresh token (and, for gemini-cli.ts, the
  client configuration is there), none otherwise, hence exactly one when the refresh
  succeeds. Every caller awaits
  the one promise or has returned its outcome, and a caller that resumes after the
  promise has settled has returned that outcome.
\<close>

theorem refresh_single_flight:
  "(c_tasks cfg t = None \<and> p_refreshPromise (c_provider cfg) = Some pr \<longrightarrow>
      step (Call t creds) cfg = cfg\<lparr>c_tasks := (c_tasks cfg)(t \<mapsto> Awaiting pr False)\<rparr>)
   \<and> (p_refreshPromise (c_provider (run acts (init_config p w))) = Some pr
       \<and> p_refreshPromise (c_provider (step a (run acts (init_config p w)))) \<noteq> Some pr \<longrightarrow>
         promise_id pr \<in> c_settled (run acts (init_config p w))
       \<and> p_refreshPromise (c_provider (step a (run acts (init_config p w)))) = None)
   \<and> (p_refreshPromise p = None \<and> Resume t0 \<notin> set acts1 \<and> (\<forall>a\<in>set acts2. \<not> is_Call a) \<longrightarrow>
        (let final = run (Call t0 c0 # acts1 @ acts2) (init_config p w);
             r = fst (performTokenRefresh p c0 w)
         in c_world final = snd (snd (performTokenRefresh p c0 w))
          \<and> occurrences is_TokenRequest (trace (c_world final)) \<le> occurrences is_TokenRequest (trace w) + 1
          \<and> occurrences is_TokenRequest (trace (c_world final))
              = occurrences is_TokenRequest (trace w)
                + (if truthy (refresh_token c0)
                      \<and> (kind p = QwenCode \<or> (\<exists>cfg. fst (fetchOAuthConfig p w) = Inr cfg))
                   then 1 else 0)
          \<and> ((\<exists>new. r = Inr new) \<longrightarrow>
                occurrences is_TokenRequest (trace (c_world final)) = occurrences is_TokenRequest (trace w) + 1)
          \<and> (\<forall>u. c_tasks final u = None
                 \<or> (\<exists>own. c_tasks final u = Some (Awaiting (Promise 0 r) own))
                 \<or> c_tasks final u = Some (Returned r))
          \<and> (\<forall>u creds' xs ys zs.
                 Call u creds' \<in> set (Call t0 c0 # acts1) \<and> acts2 = xs @ Settle 0 # ys @ Resume u # zs \<longrightarrow>
                 c_tasks final u = Some (Returned r))))"
proof (intro conjI impI)
  assume "c_tasks cfg t = None \<and> p_refreshPromise (c_provider cfg) = Some pr"
  then show "step (Call t creds) cfg = cfg\<lparr>c_tasks := (c_tasks cfg)(t \<mapsto> Awaiting pr False)\<rparr>"
    by simp
next
  assume a: "p_refreshPromise (c_provider (run acts (init_config p w))) = Some pr
       \<and> p_refreshPromise (c_provider (step a (run acts (init_config p w)))) \<noteq> Some pr"
  have o: "owner_holds_slot (run acts (init_config p w))"
    by (rule run_owner_holds_slot[OF owner_holds_slot_init])
  from slot_cleared_after_settle[OF o] a
  have r: "promise_id pr \<in> c_settled (run acts (init_config p w))
       \<and> p_refreshPromise (c_provider (step a (run acts (init_config p w)))) = None"
    by blast
  from r show "promise_id pr \<in> c_settled (run acts (init_config p w))" by blast
  from r show "p_refreshPromise (c_provider (step a (run acts (init_config p w)))) = None" by blast
next
  assume h: "p_refreshPromise p = None \<and> Resume t0 \<notin> set acts1 \<and> (\<forall>a\<in>set acts2. \<not> is_Call a)"
  obtain r p1 w1 where f: "performTokenRefresh p c0 w = (r, p1, w1)"
    by (cases "performTokenRefresh p c0 w")
  let ?final = "run (Call t0 c0 # acts1 @ acts2) (init_config p w)"
  let ?mid = "run (Call t0 c0 # acts1) (init_config p w)"
  have h1: "p_refreshPromise p = None" and h2: "Resume t0 \<notin> set acts1"
    and h3: "\<forall>a\<in>set acts2. \<not> is_Call a"
    using h by blast+
  have d: "draining (Promise 0 r) t0 w1 ?final"
    by (rule single_flight_run(1)[OF h1 h2 h3 f])
  have dm: "draining (Promise 0 r) t0 w1 ?mid"
    by (rule single_flight_run(2)[OF h1 h2 h3 f])
  have fin: "?final = run acts2 ?mid" by (simp only: run.simps run_append)
  have w: "c_world ?final = w1" using d by (simp add: draining_def)
  have le: "occurrences is_TokenRequest (trace w1) \<le> occurrences is_TokenRequest (trace w) + 1"
    using performTokenRefresh_occ[OF quiet_TokenRequest, of p c0 w] f by simp
  have ex: "occurrences is_TokenRequest (trace w1)
              = occurrences is_TokenRequest (trace w)
                + (if truthy (refresh_token c0)
                      \<and> (kind p = QwenCode \<or> (\<exists>cfg. fst (fetchOAuthConfig p w) = Inr cfg))
                   then 1 else 0)"
    using performTokenRefresh_requests[of p c0 w] f by simp
  have eq: "(\<exists>new. r = Inr new) \<longrightarrow> occurrences is_TokenRequest (trace w1) = occurrences is_TokenRequest (trace w) + 1"
    using performTokenRefresh_success_requests[of p c0 w] f by auto
  have sh: "shares (Promise 0 r) t0 ?final" using d unfolding draining_def by blast
  have tasks: "\<forall>u. c_tasks ?final u = None
                 \<or> (\<exists>own. c_tasks ?final u = Some (Awaiting (Promise 0 r) own))
                 \<or> c_tasks ?final u = Some (Returned r)"
  proof
    fix u
    have "c_tasks ?final u = None \<or> c_tasks ?final u = Some (Awaiting (Promise 0 r) (u = t0))
          \<or> c_tasks ?final u = Some (Returned (outcome (Promise 0 r)))"
      using sh unfolding shares_def by (rule spec)
    then show "c_tasks ?final u = None
                 \<or> (\<exists>own. c_tasks ?final u = Some (Awaiting (Promise 0 r) own))
                 \<or> c_tasks ?final u = Some (Returned r)"
      by auto
  qed
  have prog: "\<forall>u creds' xs ys zs.
                 Call u creds' \<in> set (Call t0 c0 # acts1) \<and> acts2 = xs @ Settle 0 # ys @ Resume u # zs \<longrightarrow>
                 c_tasks ?final u = Some (Returned r)"
  proof (intro allI impI)
    fix u creds' xs ys zs
    assume c: "Call u creds' \<in> set (Call t0 c0 # acts1) \<and> acts2 = xs @ Settle 0 # ys @ Resume u # zs"
    then have called: "c_tasks ?mid u \<noteq> None" using run_called[of u creds' "Call t0 c0 # acts1"] by blast
    have nc: "\<forall>a\<in>set (xs @ Settle (promise_id (Promise 0 r)) # ys @ Resume u # zs). \<not> is_Call a"
      using h c by simp
    have "c_tasks (run (xs @ Settle (promise_id (Promise 0 r)) # ys @ Resume u # zs) ?mid) u
            = Some (Returned (outcome (Promise 0 r)))"
      by (rule drained_task_returns[OF dm nc called])
    then show "c_tasks ?final u = Some (Returned r)"
      using c fin by simp
  qed
  show "let final = run (Call t0 c0 # acts1 @ acts2) (init_config p w);
             r = fst (performTokenRefresh p c0 w)
         in c_world final = snd (snd (performTokenRefresh p c0 w))
          \<and> occurrences is_TokenRequest (trace (c_world final)) \<le> occurrences is_TokenRequest (trace w) + 1
          \<and> occurrences is_TokenRequest (trace (c_world final))
              = occurrences is_TokenRequest (trace w)
                + (if truthy (refresh_token c0)
                      \<and> (kind p = QwenCode \<or> (\<exists>cfg. fst (fetchOAuthConfig p w) = Inr cfg))
                   then 1 else 0)
          \<and> ((\<exists>new. r = Inr new) \<longrightarrow>
                occurrences is_TokenRequest (trace (c_world final)) = occurrences is_TokenRequest (trace w) + 1)
          \<and> (\<forall>u. c_tasks final u = None
                 \<or> (\<exists>own. c_tasks final u = Some (Awaiting (Promise 0 r) own))
                 \<or> c_tasks final u = Some (Returned r))
          \<and> (\<forall>u creds' xs ys zs.
                 Call u creds' \<in> set (Call t0 c0 # acts1) \<and> acts2 = xs @ Settle 0 # ys @ Resume u # zs \<longrightarrow>
                 c_tasks final u = Some (Returned r))"
    unfolding Let_def f fst_conv snd_conv
    using w le ex eq tasks prog by (simp only: simp_thms)  
qed

text \<open>
  The function \<open>refreshAccessToken\<close> of the sequential sections is the event loop run
  for one caller: alone (call, settle, resume), and as a caller that finds a settled
  promise in the slot (call, resume).
\<close>

lemma refreshAccessToken_single_caller:
  assumes "p_refreshPromise p = None" and "refreshAccessToken p creds w = (r, p', w')"
  shows "c_tasks (run [Call t creds, Settle 0, Resume t] (init_config p w)) t = Some (Returned r)
       \<and> c_provider (run [Call t creds, Settle 0, Resume t] (init_config p w)) = p'
       \<and> c_world (run [Call t creds, Settle 0, Resume t] (init_config p w)) = w'"
  using assms
  by (cases "performTokenRefresh p creds w") (auto simp: refreshAccessToken_def init_config_def)

lemma refreshAccessToken_joining_caller:
  assumes "p_refreshPromise (c_provider cfg) = Some pr" and "c_tasks cfg t = None"
    and "promise_id pr \<in> c_settled cfg"
  shows "c_tasks (run [Call t creds, Resume t] cfg) t
           = Some (Returned (fst (refreshAccessToken (c_provider cfg) creds (c_world cfg))))
       \<and> c_provider (run [Call t creds, Resume t] cfg) = fst (snd (refreshAccessToken (c_provider cfg) creds (c_world cfg)))
       \<and> c_world (run [Call t creds, Resume t] cfg) = snd (snd (refreshAccessToken (c_provider cfg) creds (c_world cfg)))"
  using assms by (auto simp: refreshAccessToken_def)

section \<open>Concrete runs\<close>

text \<open>
  C2 as stated fails when the forced refresh fails: the first invocation fails with
  status 401, a record is cached, and \<^verbatim>\<open>apiCall\<close> is invoked once, not twice; the
  failure of the wrapper is the failure of the refresh.
\<close>

theorem callApiWithRetry_counterexample:
  "api world_refresh_rejected 0 = Inl (Error ''Unauthorized'' (Some 401))
   \<and> p_credentials (example_provider QwenCode) = Some example_creds
   \<and> fst (callApiWithRetry invokeApi (example_provider QwenCode) world_refresh_rejected)
       = Inl (Error ''Failed to refresh access token: Token refresh failed: 400 Bad Request. Response: invalid_grant'' None)
   \<and> occurrences (\<lambda>e. e = ApiCall)
        (trace (snd (snd (callApiWithRetry invokeApi (example_provider QwenCode) world_refresh_rejected)))) = 1"
  by code_simp

text \<open>
  C4 as stated fails for a successful reply whose \<^verbatim>\<open>token_type\<close> and \<^verbatim>\<open>refresh_token\<close>
  are empty strings: the reply does not omit them, and the new record has \<^verbatim>\<open>Bearer\<close> and
  the prior refresh token.
\<close>

theorem performTokenRefresh_counterexample:
  "td_token_type blank_token_data = Some []
   \<and> td_refresh_token blank_token_data = Some []
   \<and> tokenResponse world_blank_token_data = Some blank_token_data
   \<and> fst (performTokenRefresh (example_provider QwenCode) example_creds world_blank_token_data)
       = Inr \<lparr>access_token = Some ''A2'', refresh_token = Some ''R1'', token_type = Some ''Bearer'',
              expiry_date = Some 3605001, resource_url = None\<rparr>"
  by code_simp

text \<open>
  C6 as stated fails for a file that is well-formed JSON and has both token members,
  the \<^verbatim>\<open>access_token\<close> being the empty string: loading fails.
\<close>

theorem loadCredentials_counterexample:
  "files world_blank_access_token (getCredentialPath QwenCode world_blank_access_token None)
      = Inr blank_access_token_file
   \<and> JSON_parse world_blank_access_token blank_access_token_file
      = Inr (JsonValue \<lparr>access_token = Some [], refresh_token = Some ''R1'', token_type = Some ''Bearer'',
                        expiry_date = Some 1000, resource_url = None\<rparr>)
   \<and> fst (loadCredentials (new_provider QwenCode) world_blank_access_token)
      = Inl (Error ''Failed to load Qwen OAuth credentials: Invalid credentials format: missing access_token or refresh_token'' None)"
  by code_simp

text \<open>Witness of C8: the setting wins over the server environment, and a later call with another setting changes nothing.\<close>

theorem initializeOAuthPath_first_write_wins_witness:
  "\<not> p_initialized (new_provider QwenCode)
   \<and> p_oauthPath (initializeOAuthPath (Some \<lparr>s_baseUrl = Some ''/tmp/a.json''\<rparr>)
        (Some [''QWEN_OAUTH_PATH'' \<mapsto> ''/tmp/c.json'']) (new_provider QwenCode) example_world)
       = Some ''/tmp/a.json''
   \<and> initializeOAuthPath (Some \<lparr>s_baseUrl = Some ''/tmp/b.json''\<rparr>) None
        (initializeOAuthPath (Some \<lparr>s_baseUrl = Some ''/tmp/a.json''\<rparr>)
           (Some [''QWEN_OAUTH_PATH'' \<mapsto> ''/tmp/c.json'']) (new_provider QwenCode) example_world)
        example_world
       = initializeOAuthPath (Some \<lparr>s_baseUrl = Some ''/tmp/a.json''\<rparr>)
           (Some [''QWEN_OAUTH_PATH'' \<mapsto> ''/tmp/c.json'']) (new_provider QwenCode) example_world"
  using initializeOAuthPath_first_write_wins
          [where p = "new_provider QwenCode" and ?s1.0 = "Some \<lparr>s_baseUrl = Some ''/tmp/a.json''\<rparr>"
             and ?e1.0 = "Some [''QWEN_OAUTH_PATH'' \<mapsto> ''/tmp/c.json'']" and ?w1.0 = example_world
             and ?s2.0 = "Some \<lparr>s_baseUrl = Some ''/tmp/b.json''\<rparr>" and ?e2.0 = None and ?w2.0 = example_world]
  by (simp add: new_provider_def truthy_def Let_def)

text \<open>Witness of C5: on a read-only file system the save fails inside, returns normally, and the refresh still gives the new token.\<close>

theorem saveCredentials_non_fatal_witness:
  "fst (saveCredentials_try (example_provider QwenCode) example_creds world_read_only)
      = Inl (Error ''EROFS: read-only file system'' None)
   \<and> fst (saveCredentials (example_provider QwenCode) example_creds world_read_only) = Inr ()
   \<and> trace (snd (saveCredentials (example_provider QwenCode) example_creds world_read_only))
      = [Mkdir ''/home/u/.qwen'', ConsoleError ''EROFS: read-only file system'']
   \<and> fst (performTokenRefresh (example_provider QwenCode) example_creds world_read_only)
      = fst (performTokenRefresh (example_provider QwenCode) example_creds example_world)
   \<and> fst (ensureClient None None (example_provider QwenCode) world_read_only)
      = Inr \<lparr>baseURL = Some ''https://dashscope.aliyuncs.com/compatible-mode/v1'', apiKey = Some ''A2''\<rparr>"
proof -
  have e: "fst (saveCredentials_try (example_provider QwenCode) example_creds world_read_only)
      = Inl (Error ''EROFS: read-only file system'' None)
    \<and> trace (snd (saveCredentials_try (example_provider QwenCode) example_creds world_read_only))
      = [Mkdir ''/home/u/.qwen'']
    \<and> fst (ensureClient None None (example_provider QwenCode) example_world)
      = Inr \<lparr>baseURL = Some ''https://dashscope.aliyuncs.com/compatible-mode/v1'', apiKey = Some ''A2''\<rparr>"
    by code_simp
  have w: "world_read_only = example_world\<lparr>mkdir_error := (\<lambda>d. Some ''EROFS: read-only file system''),
                   write_error := (\<lambda>f. Some ''EROFS: read-only file system'')\<rparr>"
    by (simp add: world_read_only_def)
  show ?thesis
    using saveCredentials_non_fatal
            [where p = "example_provider QwenCode" and creds = example_creds and w = world_read_only
               and m = "\<lambda>d. Some ''EROFS: read-only file system''"
               and e = "\<lambda>f. Some ''EROFS: read-only file system''" and s = None and env = None]
          saveCredentials_non_fatal
            [where p = "example_provider QwenCode" and creds = example_creds and w = example_world
               and m = "\<lambda>d. Some ''EROFS: read-only file system''"
               and e = "\<lambda>f. Some ''EROFS: read-only file system''" and s = None and env = None]
          e
    by (simp add: w[symmetric] emit_def)
qed

text \<open>Witness of C10: the token endpoint refuses the refresh token, and the expired record stays in the cache.\<close>

theorem refresh_failure_keeps_cached_record_witness:
  "p_credentials (example_provider QwenCode) = Some example_creds
   \<and> \<not> isTokenValid example_creds (now world_refresh_rejected)
   \<and> fst (ensureClient None None (example_provider QwenCode) world_refresh_rejected)
       = Inl (Error ''Failed to refresh access token: Token refresh failed: 400 Bad Request. Response: invalid_grant'' None)
   \<and> p_credentials (fst (snd (ensureClient None None (example_provider QwenCode) world_refresh_rejected)))
       = Some example_creds
   \<and> p_credentials (fst (snd (ensureAuthenticated None None (example_provider QwenCode) world_refresh_rejected)))
       = Some example_creds"
proof -
  have e: "p_credentials (example_provider QwenCode) = Some example_creds
     \<and> \<not> isTokenValid example_creds (now world_refresh_rejected)
     \<and> fst (refreshAccessToken (initializeOAuthPath None None (example_provider QwenCode) world_refresh_rejected)
              example_creds world_refresh_rejected)
         = Inl (Error ''Failed to refresh access token: Token refresh failed: 400 Bad Request. Response: invalid_grant'' None)"
    by code_simp
  show ?thesis
    using refresh_failure_keeps_cached_record
            [where p = "example_provider QwenCode" and creds = example_creds and w = world_refresh_rejected
               and s = None and env = None
               and e = "Error ''Failed to refresh access token: Token refresh failed: 400 Bad Request. Response: invalid_grant'' None"]
          e
    by blast
qed

text \<open>Witness of C2 as amended: a 401, one token request, and the result of the second invocation.\<close>

theorem callApiWithRetry_retries_once_witness:
  "api world_unauthorized_once 0 = Inl (Error ''Unauthorized'' (Some 401))
   \<and> fst (callApiWithRetry invokeApi (example_provider QwenCode) world_unauthorized_once) = Inr ''result''
   \<and> occurrences (\<lambda>e. e = ApiCall)
        (trace (snd (snd (callApiWithRetry invokeApi (example_provider QwenCode) world_unauthorized_once)))) = 2
   \<and> occurrences is_TokenRequest
        (trace (snd (snd (callApiWithRetry invokeApi (example_provider QwenCode) world_unauthorized_once)))) = 1"
proof -
  let ?w2 = "emit (ConsoleError (err_message (Error ''Unauthorized'' (Some 401)))) (emit ApiCall world_unauthorized_once)"
  let ?X = "refreshAccessToken (example_provider QwenCode) example_creds ?w2"
  let ?new = "\<lparr>access_token = Some ''A2'', refresh_token = Some ''R1'', token_type = Some ''Bearer'',
               expiry_date = Some 3605003, resource_url = None\<rparr>"
  have e: "api world_unauthorized_once (occurrences (\<lambda>e. e = ApiCall) (trace world_unauthorized_once))
             = Inl (Error ''Unauthorized'' (Some 401))
     \<and> api world_unauthorized_once (occurrences (\<lambda>e. e = ApiCall) (trace world_unauthorized_once) + 1) = Inr ''result''
     \<and> api world_unauthorized_once 0 = Inl (Error ''Unauthorized'' (Some 401))
     \<and> p_credentials (example_provider QwenCode) = Some example_creds
     \<and> fst ?X = Inr ?new
     \<and> occurrences (\<lambda>e. e = ApiCall)
        (trace (snd (snd (callApiWithRetry invokeApi (example_provider QwenCode) world_unauthorized_once)))) = 2
     \<and> occurrences is_TokenRequest
        (trace (snd (snd (callApiWithRetry invokeApi (example_provider QwenCode) world_unauthorized_once)))) = 1"
    by code_simp
  then have x: "?X = (Inr ?new, fst (snd ?X), snd (snd ?X))"
    by (cases ?X) simp
  have h: "api world_unauthorized_once (occurrences (\<lambda>e. e = ApiCall) (trace world_unauthorized_once))
             = Inl (Error ''Unauthorized'' (Some 401))
        \<and> err_status (Error ''Unauthorized'' (Some 401)) = Some 401
        \<and> p_credentials (example_provider QwenCode) = Some example_creds
        \<and> ?X = (Inr ?new, fst (snd ?X), snd (snd ?X))"
    using e x by simp
  have "callApiWithRetry invokeApi (example_provider QwenCode) world_unauthorized_once
          = (api world_unauthorized_once (occurrences (\<lambda>e. e = ApiCall) (trace world_unauthorized_once) + 1),
             (fst (snd ?X))\<lparr>p_credentials := Some ?new\<rparr>, emit ApiCall (snd (snd ?X)))"
    using callApiWithRetry_retries_once
            [where p = "example_provider QwenCode" and w = world_unauthorized_once
               and e = "Error ''Unauthorized'' (Some 401)" and creds = example_creds
               and new = ?new and ?p1.0 = "fst (snd ?X)" and ?w3.0 = "snd (snd ?X)"]
          h
    by blast
  then have "fst (callApiWithRetry invokeApi (example_provider QwenCode) world_unauthorized_once)
          = api world_unauthorized_once (occurrences (\<lambda>e. e = ApiCall) (trace world_unauthorized_once) + 1)"
    by simp
  then show ?thesis using e by simp
qed

text \<open>Witness of C4 as amended: the reply has no refresh token; the prior one is kept and the expiry is the clock plus 3600000.\<close>

theorem performTokenRefresh_new_record_witness:
  "truthy (refresh_token example_creds)
   \<and> tokenResponse (tokenRequestWorld (example_provider QwenCode) example_world) = Some example_token_data
   \<and> td_refresh_token example_token_data = None
   \<and> (\<exists>new. fst (performTokenRefresh (example_provider QwenCode) example_creds example_world) = Inr new
         \<and> access_token new = Some ''A2'' \<and> token_type new = Some ''Bearer''
         \<and> refresh_token new = Some ''R1'' \<and> expiry_date new = Some (5001 + 3600 * 1000))"
proof -
  have e: "truthy (refresh_token example_creds)
     \<and> kind (example_provider QwenCode) = QwenCode
     \<and> tokenResponse (tokenRequestWorld (example_provider QwenCode) example_world) = Some example_token_data
     \<and> 5001 = now (tokenRequestWorld (example_provider QwenCode) example_world)
               + elapse (tokenRequestWorld (example_provider QwenCode) example_world)
                   (length (trace (tokenRequestWorld (example_provider QwenCode) example_world)))
     \<and> td_access_token example_token_data = Some ''A2'' \<and> td_token_type example_token_data = None
     \<and> td_refresh_token example_token_data = None \<and> td_expires_in example_token_data = Some 3600
     \<and> refresh_token example_creds = Some ''R1''"
    by code_simp
  show ?thesis
    using performTokenRefresh_new_record
            [where p = "example_provider QwenCode" and creds = example_creds and w = example_world
               and td = example_token_data and date_now = 5001]
          e
    by auto
qed

text \<open>Witness of C6 as amended: the file is read once by the first call and not by the second; a missing file is a load error.\<close>

theorem loadCredentials_fails_or_caches_witness:
  "fst (loadCredentials (new_provider QwenCode) world_with_file) = Inr example_creds
   \<and> fst (loadCredentials (new_provider QwenCode) example_world)
       = Inl (Error ''Failed to load Qwen OAuth credentials: ENOENT: no such file or directory'' None)
   \<and> p_credentials (fst (snd (ensureClient None None (new_provider QwenCode) world_with_file))) \<noteq> None
   \<and> occurrences is_ReadFile (trace (snd (snd (ensureClient None None (new_provider QwenCode) world_with_file)))) = 1
   \<and> occurrences is_ReadFile
        (trace (snd (snd (ensureClient None None
                            (fst (snd (ensureClient None None (new_provider QwenCode) world_with_file)))
                            (snd (snd (ensureClient None None (new_provider QwenCode) world_with_file))))))) = 1"
proof -
  have e: "files world_with_file (getCredentialPath (kind (new_provider QwenCode)) world_with_file
              (p_oauthPath (new_provider QwenCode))) = Inr example_file
     \<and> JSON_parse world_with_file example_file = Inr (JsonValue example_creds)
     \<and> truthy (access_token example_creds) \<and> truthy (refresh_token example_creds)
     \<and> fst (loadCredentials (new_provider QwenCode) example_world)
       = Inl (Error ''Failed to load Qwen OAuth credentials: ENOENT: no such file or directory'' None)
     \<and> p_credentials (new_provider QwenCode) = None
     \<and> p_credentials (fst (snd (ensureClient None None (new_provider QwenCode) world_with_file))) \<noteq> None
     \<and> occurrences is_ReadFile (trace world_with_file) = 0"
    by code_simp
  let ?p1 = "fst (snd (ensureClient None None (new_provider QwenCode) world_with_file))"
  let ?w1 = "snd (snd (ensureClient None None (new_provider QwenCode) world_with_file))"
  have a: "fst (loadCredentials (new_provider QwenCode) world_with_file) = Inr example_creds
     \<and> occurrences is_ReadFile (trace ?w1) = 1"
    using loadCredentials_fails_or_caches
            [where p = "new_provider QwenCode" and w = world_with_file and creds = example_creds
               and s = None and env = None] e
    by auto
  have b: "occurrences is_ReadFile (trace (snd (snd (ensureClient None None ?p1 ?w1)))) = 1"
    using loadCredentials_fails_or_caches
            [where p = ?p1 and w = ?w1 and creds = example_creds and s = None and env = None] e a
    by auto
  show ?thesis using a b e by simp
qed

text \<open>Witness of C9: with no credential file, and with an unreachable models endpoint, the list is empty.\<close>

theorem getDynamicModels_never_fails_witness:
  "fst (ensureClient None None (new_provider QwenCode) example_world)
      = Inl (Error ''Failed to load Qwen OAuth credentials: ENOENT: no such file or directory'' None)
   \<and> fst (getDynamicModels None None (new_provider QwenCode) example_world) = Inr []
   \<and> fst (getDynamicModels None None (example_provider QwenCode) example_world) = Inr []"
proof -
  have e: "fst (ensureClient None None (new_provider QwenCode) example_world)
      = Inl (Error ''Failed to load Qwen OAuth credentials: ENOENT: no such file or directory'' None)
     \<and> models_endpoint example_world = (\<lambda>k. Inl ''fetch failed'')"
    by (simp add: example_world_def) code_simp
  show ?thesis
    using getDynamicModels_never_fails[where p = "new_provider QwenCode" and w = example_world and s = None and env = None]
          getDynamicModels_never_fails[where p = "example_provider QwenCode" and w = example_world and s = None and env = None]
          e
    by auto
qed

text \<open>
  C7 as stated fails for the second invocation on a handle. After the first call the
  clock is advanced until the cached token has expired. The second \<^verbatim>\<open>doGenerate\<close> records
  the API call and nothing else, where an invocation that ran the orchestrator first
  would have refreshed the token before the call.
\<close>

theorem doGenerate_counterexample:
  "fst (first_call QwenCode) = Inr ''result''
   \<and> map_option (\<lambda>c. isTokenValid c (now (later_world QwenCode))) (p_credentials (fst (snd (snd (first_call QwenCode)))))
       = Some False
   \<and> trace (snd (snd (snd (doGenerate (fst (snd (first_call QwenCode))) (fst (snd (snd (first_call QwenCode))))
                               (later_world QwenCode)))))
       = trace (later_world QwenCode) @ [ApiCall]
   \<and> trace (snd (snd (doGenerate_revalidating (fst (snd (first_call QwenCode))) (fst (snd (snd (first_call QwenCode))))
                          (later_world QwenCode))))
       = trace (later_world QwenCode)
           @ [TokenRequest [(''grant_type'', Some ''refresh_token''), (''refresh_token'', Some ''R1''),
                            (''client_id'', Some ''f0304373b74a44d2b584a3fb70ca9e56'')],
              Mkdir ''/home/u/.qwen'', WriteFile ''/home/u/.qwen/oauth_creds.json'' ''{}'', ApiCall]
   \<and> map_option (\<lambda>c. isTokenValid c (now (later_world GeminiCli))) (p_credentials (fst (snd (snd (first_call GeminiCli)))))
       = Some False
   \<and> occurrences is_TokenRequest
        (trace (snd (snd (snd (doGenerate (fst (snd (first_call GeminiCli))) (fst (snd (snd (first_call GeminiCli))))
                                 (later_world GeminiCli))))))
       = occurrences is_TokenRequest (trace (later_world GeminiCli))
   \<and> occurrences is_TokenRequest
        (trace (snd (snd (doGenerate_revalidating (fst (snd (first_call GeminiCli))) (fst (snd (snd (first_call GeminiCli))))
                            (later_world GeminiCli)))))
       = occurrences is_TokenRequest (trace (later_world GeminiCli)) + 1"
  by code_simp

text \<open>Witness of C7 as amended: the first invocation authenticates and keeps the client; the second goes to the retry wrapper at once.\<close>

theorem doGenerate_authenticates_once_witness:
  "clientPromise example_handle = None \<and> \<not> isInitializing example_handle
   \<and> fst (authenticate example_handle (example_provider QwenCode) example_world)
       = Inr \<lparr>baseURL = Some ''https://dashscope.aliyuncs.com/compatible-mode/v1'', apiKey = Some ''A2''\<rparr>
   \<and> fst (first_call QwenCode) = Inr ''result''
   \<and> clientPromise (fst (snd (first_call QwenCode)))
       = Some (Inr \<lparr>baseURL = Some ''https://dashscope.aliyuncs.com/compatible-mode/v1'', apiKey = Some ''A2''\<rparr>)
   \<and> doGenerate (fst (snd (first_call QwenCode))) (fst (snd (snd (first_call QwenCode)))) (later_world QwenCode)
       = (case callApiWithRetry invokeApi (fst (snd (snd (first_call QwenCode)))) (later_world QwenCode) of
            (r, p2, w2) \<Rightarrow> (r, fst (snd (first_call QwenCode)), p2, w2))"
proof -
  let ?c = "\<lparr>baseURL = Some ''https://dashscope.aliyuncs.com/compatible-mode/v1'', apiKey = Some ''A2''\<rparr>"
  let ?A = "authenticate example_handle (example_provider QwenCode) example_world"
  have e: "clientPromise example_handle = None \<and> \<not> isInitializing example_handle
     \<and> fst ?A = Inr ?c
     \<and> fst (first_call QwenCode) = Inr ''result''
     \<and> clientPromise (fst (snd (first_call QwenCode))) = Some (Inr ?c)"
    by code_simp
  then have a: "?A = (Inr ?c, fst (snd ?A), snd (snd ?A))"
    by (cases ?A) simp
  have h: "clientPromise example_handle = None \<and> \<not> isInitializing example_handle
        \<and> ?A = (Inr ?c, fst (snd ?A), snd (snd ?A))"
    using e a by blast
  have first: "doGenerate example_handle (example_provider QwenCode) example_world
      = (case callApiWithRetry invokeApi (fst (snd ?A)) (snd (snd ?A)) of
           (r, p2, w2) \<Rightarrow> (r, example_handle\<lparr>clientPromise := Some (Inr ?c), isInitializing := False\<rparr>, p2, w2))"
    using doGenerate_authenticates_once
            [where h = example_handle and p = "example_provider QwenCode" and w = example_world
               and c = ?c and ?p1.0 = "fst (snd ?A)" and ?w1.0 = "snd (snd ?A)"]
          h
    by blast
  have second: "doGenerate (fst (snd (first_call QwenCode))) (fst (snd (snd (first_call QwenCode)))) (later_world QwenCode)
       = (case callApiWithRetry invokeApi (fst (snd (snd (first_call QwenCode)))) (later_world QwenCode) of
            (r, p2, w2) \<Rightarrow> (r, fst (snd (first_call QwenCode)), p2, w2))"
    using doGenerate_authenticates_once
            [where h = "fst (snd (first_call QwenCode))" and p = "fst (snd (snd (first_call QwenCode)))"
               and w = "later_world QwenCode" and c = ?c]
          e
    by blast
  show ?thesis using e second by blast
qed

text \<open>Witness of C1: three callers, one token request, and the same record for each of them.\<close>

theorem refresh_single_flight_witness:
  "occurrences is_TokenRequest
      (trace (c_world (run three_callers (init_config (example_provider QwenCode) example_world)))) = 1
   \<and> c_tasks (run three_callers (init_config (example_provider QwenCode) example_world)) 1
       = Some (Returned (Inr \<lparr>access_token = Some ''A2'', refresh_token = Some ''R1'', token_type = Some ''Bearer'',
                                expiry_date = Some 3605001, resource_url = None\<rparr>))
   \<and> c_tasks (run three_callers (init_config (example_provider QwenCode) example_world)) 2
       = Some (Returned (Inr \<lparr>access_token = Some ''A2'', refresh_token = Some ''R1'', token_type = Some ''Bearer'',
                                expiry_date = Some 3605001, resource_url = None\<rparr>))
   \<and> c_tasks (run three_callers (init_config (example_provider QwenCode) example_world)) 3
       = Some (Returned (Inr \<lparr>access_token = Some ''A2'', refresh_token = Some ''R1'', token_type = Some ''Bearer'',
                                expiry_date = Some 3605001, resource_url = None\<rparr>))"
proof -
  let ?new = "\<lparr>access_token = Some ''A2'', refresh_token = Some ''R1'', token_type = Some ''Bearer'',
                expiry_date = Some 3605001, resource_url = None\<rparr>"
  let ?final = "run (Call 1 example_creds # [Call 2 example_creds, Call 3 example_creds]
                      @ [Settle 0, Resume 1, Resume 2, Resume 3])
                  (init_config (example_provider QwenCode) example_world)"
  have e: "fst (performTokenRefresh (example_provider QwenCode) example_creds example_world) = Inr ?new
     \<and> occurrences is_TokenRequest (trace example_world) = 0
     \<and> p_refreshPromise (example_provider QwenCode) = None"
    by code_simp
  have h: "p_refreshPromise (example_provider QwenCode) = None
     \<and> Resume 1 \<notin> set [Call 2 example_creds, Call 3 example_creds]
     \<and> (\<forall>a\<in>set [Settle 0, Resume 1, Resume 2, Resume 3]. \<not> is_Call a)"
    using e by simp
  note th = refresh_single_flight
            [where p = "example_provider QwenCode" and w = example_world and ?t0.0 = 1 and ?c0.0 = example_creds
               and ?acts1.0 = "[Call 2 example_creds, Call 3 example_creds]"
               and ?acts2.0 = "[Settle 0, Resume 1, Resume 2, Resume 3]"]
  have r: "fst (performTokenRefresh (example_provider QwenCode) example_creds example_world) = Inr ?new"
    using e by (rule conjunct1)
  have t: "c_world ?final = snd (snd (performTokenRefresh (example_provider QwenCode) example_creds example_world))
          \<and> occurrences is_TokenRequest (trace (c_world ?final)) \<le> occurrences is_TokenRequest (trace example_world) + 1
          \<and> occurrences is_TokenRequest (trace (c_world ?final))
              = occurrences is_TokenRequest (trace example_world)
                + (if truthy (refresh_token example_creds)
                      \<and> (kind (example_provider QwenCode) = QwenCode
                           \<or> (\<exists>cfg. fst (fetchOAuthConfig (example_provider QwenCode) example_world) = Inr cfg))
                   then 1 else 0)
          \<and> ((\<exists>new. (Inr ?new :: error + credentials) = Inr new) \<longrightarrow>
                occurrences is_TokenRequest (trace (c_world ?final)) = occurrences is_TokenRequest (trace example_world) + 1)
          \<and> (\<forall>u. c_tasks ?final u = None
                 \<or> (\<exists>own. c_tasks ?final u = Some (Awaiting (Promise 0 (Inr ?new)) own))
                 \<or> c_tasks ?final u = Some (Returned (Inr ?new)))
          \<and> (\<forall>u creds' xs ys zs.
                 Call u creds' \<in> set (Call 1 example_creds # [Call 2 example_creds, Call 3 example_creds])
                 \<and> [Settle 0, Resume 1, Resume 2, Resume 3] = xs @ Settle 0 # ys @ Resume u # zs \<longrightarrow>
                 c_tasks ?final u = Some (Returned (Inr ?new)))"
    by (rule mp[OF conjunct2[OF conjunct2[OF th]] h, unfolded Let_def r])
  have c3: "(\<exists>new. (Inr ?new :: error + credentials) = Inr new) \<longrightarrow>
                occurrences is_TokenRequest (trace (c_world ?final)) = occurrences is_TokenRequest (trace example_world) + 1"
    by (rule conjunct1[OF conjunct2[OF conjunct2[OF conjunct2[OF t]]]])
  have z: "occurrences is_TokenRequest (trace example_world) = 0"
    by (rule conjunct1[OF conjunct2[OF e]])
  have ex: "\<exists>new. (Inr ?new :: error + credentials) = Inr new"
    by (rule exI) (rule refl)
  have one: "0 + 1 = (1::nat)" by simp
  have n: "occurrences is_TokenRequest (trace (c_world ?final)) = 1"
    by (rule mp[OF c3 ex, unfolded z one])
  have c5: "\<forall>u creds' xs ys zs.
                 Call u creds' \<in> set (Call 1 example_creds # [Call 2 example_creds, Call 3 example_creds])
                 \<and> [Settle 0, Resume 1, Resume 2, Resume 3] = xs @ Settle 0 # ys @ Resume u # zs \<longrightarrow>
                 c_tasks ?final u = Some (Returned (Inr ?new))"
    by (rule conjunct2[OF conjunct2[OF conjunct2[OF conjunct2[OF conjunct2[OF t]]]]])
  have t1: "c_tasks ?final 1 = Some (Returned (Inr ?new))"
    by (rule c5[rule_format, where creds' = example_creds and xs = "[]" and ys = "[]" and zs = "[Resume 2, Resume 3]"]) simp
  have t2: "c_tasks ?final 2 = Some (Returned (Inr ?new))"
    by (rule c5[rule_format, where creds' = example_creds and xs = "[]" and ys = "[Resume 1]" and zs = "[Resume 3]"]) simp
  have t3: "c_tasks ?final 3 = Some (Returned (Inr ?new))"
    by (rule c5[rule_format, where creds' = example_creds and xs = "[]" and ys = "[Resume 1, Resume 2]" and zs = "[]"]) simp
  show ?thesis unfolding three_callers_def
    by (rule conjI[OF n conjI[OF t1 conjI[OF t2 t3]]])
qed

end
